theory Spec2Isabelle
  imports Main "HOL-Library.Word"
begin

section \<open>Bytes, randomness and the external primitives\<close>

type_synonym byte = "8 word"
type_synonym bytes = "byte list"

text \<open>
  \<^verbatim>\<open>os.urandom(n)\<close> reads the next \<open>n\<close> bytes of the operating system's random
  source. The source is an infinite stream of bytes owned by the environment; reading
  advances it.
\<close>

type_synonym rng = "nat \<Rightarrow> byte"

definition urandom :: "nat \<Rightarrow> rng \<Rightarrow> bytes \<times> rng" where
  "urandom n r = (map r [0..<n], \<lambda>i. r (i + n))"

text \<open>The exceptions that travel through the vault's code.\<close>

datatype exn =
    ValueError_Vault_is_locked
  | ValueError_AESGCM_key_size
  | InvalidTag
  | UnicodeDecodeError
  | HashingError
  | OperationalError

text \<open>
  The library functions the repository calls but does not contain: Argon2
  (\<^verbatim>\<open>argon2.low_level.hash_secret_raw\<close> with the fixed cost parameters of
  \<^verbatim>\<open>derive_key\<close>, and \<^verbatim>\<open>PasswordHasher.hash\<close>/\<^verbatim>\<open>verify\<close>), AES-GCM
  (\<^verbatim>\<open>AESGCM.encrypt\<close>/\<^verbatim>\<open>decrypt\<close> with no associated data) and the UTF-8 codec
  (\<^verbatim>\<open>str.encode\<close>, \<^verbatim>\<open>bytes.decode\<close>). They are parameters of the model.
  \<open>ph_hash\<close> takes the 16 random bytes the hasher draws for its own salt;
  \<open>ph_verify\<close> is \<open>True\<close> where \<^verbatim>\<open>verify\<close> returns and \<open>False\<close> where it raises.
\<close>

record prims =
  hash_secret_raw :: "bytes \<Rightarrow> bytes \<Rightarrow> exn + bytes"
  ph_hash :: "bytes \<Rightarrow> string \<Rightarrow> string"
  ph_verify :: "string \<Rightarrow> string \<Rightarrow> bool"
  aesgcm_encrypt :: "bytes \<Rightarrow> bytes \<Rightarrow> bytes \<Rightarrow> bytes"
  aesgcm_decrypt :: "bytes \<Rightarrow> bytes \<Rightarrow> bytes \<Rightarrow> exn + bytes"
  str_encode :: "string \<Rightarrow> bytes"
  bytes_decode :: "bytes \<Rightarrow> string option"

section \<open>crypto\_manager.py\<close>

record CryptoManager =
  master_key :: "bytes option"

datatype log_line =
    Key_derivation_failed exn
  | Failed_to_decrypt_ID int exn

record payload =
  nonce :: bytes
  ciphertext :: bytes

definition CryptoManager_init :: CryptoManager where
  "CryptoManager_init = \<lparr>master_key = None\<rparr>"

definition derive_key :: "prims \<Rightarrow> string \<Rightarrow> bytes \<Rightarrow> exn + bytes" where
  "derive_key P password salt = hash_secret_raw P (str_encode P password) salt"

definition generate_salt :: "rng \<Rightarrow> bytes \<times> rng" where
  "generate_salt r = urandom 16 r"

text \<open>
  \<^verbatim>\<open>CryptoManager.unlock\<close>: the result is the returned flag, the manager after the
  call and the lines printed.
\<close>

definition unlock ::
  "prims \<Rightarrow> CryptoManager \<Rightarrow> string \<Rightarrow> bytes option \<Rightarrow> bool \<times> CryptoManager \<times> log_line list" where
  "unlock P self password stored_salt =
     (case stored_salt of
        None \<Rightarrow> (False, self, [])
      | Some salt \<Rightarrow>
          (case derive_key P password salt of
             Inr key \<Rightarrow> (True, self\<lparr>master_key := Some key\<rparr>, [])
           | Inl e \<Rightarrow> (False, self, [Key_derivation_failed e])))"

definition lock :: "CryptoManager \<Rightarrow> CryptoManager" where
  "lock self = self\<lparr>master_key := None\<rparr>"

definition is_unlocked :: "CryptoManager \<Rightarrow> bool" where
  "is_unlocked self = (master_key self \<noteq> None)"

text \<open>\<^verbatim>\<open>AESGCM(key)\<close> accepts keys of 128, 192 and 256 bits only.\<close>

definition AESGCM :: "bytes \<Rightarrow> exn + bytes" where
  "AESGCM key =
     (if length key = 16 \<or> length key = 24 \<or> length key = 32 then Inr key
      else Inl ValueError_AESGCM_key_size)"

text \<open>\<^verbatim>\<open>if not self.master_key\<close> holds for \<^verbatim>\<open>None\<close> and for the empty byte string.\<close>

definition encrypt_bytes ::
  "prims \<Rightarrow> CryptoManager \<Rightarrow> bytes \<Rightarrow> rng \<Rightarrow> (exn + payload) \<times> rng" where
  "encrypt_bytes P self plaintext r =
     (case master_key self of
        None \<Rightarrow> (Inl ValueError_Vault_is_locked, r)
      | Some k \<Rightarrow>
          if k = [] then (Inl ValueError_Vault_is_locked, r)
          else
            (case AESGCM k of
               Inl e \<Rightarrow> (Inl e, r)
             | Inr aesgcm \<Rightarrow>
                 (case urandom 12 r of
                    (n, r') \<Rightarrow>
                      (Inr \<lparr>nonce = n, ciphertext = aesgcm_encrypt P aesgcm n plaintext\<rparr>, r'))))"

definition encrypt ::
  "prims \<Rightarrow> CryptoManager \<Rightarrow> string \<Rightarrow> rng \<Rightarrow> (exn + payload) \<times> rng" where
  "encrypt P self plaintext r = encrypt_bytes P self (str_encode P plaintext) r"

definition decrypt_bytes :: "prims \<Rightarrow> CryptoManager \<Rightarrow> bytes \<Rightarrow> bytes \<Rightarrow> exn + bytes" where
  "decrypt_bytes P self n ciphertext_with_tag =
     (case master_key self of
        None \<Rightarrow> Inl ValueError_Vault_is_locked
      | Some k \<Rightarrow>
          if k = [] then Inl ValueError_Vault_is_locked
          else
            (case AESGCM k of
               Inl e \<Rightarrow> Inl e
             | Inr aesgcm \<Rightarrow> aesgcm_decrypt P aesgcm n ciphertext_with_tag))"

definition decrypt :: "prims \<Rightarrow> CryptoManager \<Rightarrow> bytes \<Rightarrow> bytes \<Rightarrow> exn + string" where
  "decrypt P self n ciphertext_with_tag =
     (case decrypt_bytes P self n ciphertext_with_tag of
        Inl e \<Rightarrow> Inl e
      | Inr b \<Rightarrow>
          (case bytes_decode P b of
             None \<Rightarrow> Inl UnicodeDecodeError
           | Some s \<Rightarrow> Inr s))"

section \<open>db\_manager.py\<close>

text \<open>
  The three tables of \<^verbatim>\<open>init_db\<close>. The \<^verbatim>\<open>config\<close> table holds at most the two rows
  \<^verbatim>\<open>salt\<close> and \<^verbatim>\<open>password_hash\<close>; the hash is kept as the text that
  \<^verbatim>\<open>get_master_config\<close> decodes. \<open>passwords_seq\<close> and \<open>attachments_seq\<close> are the
  \<^verbatim>\<open>AUTOINCREMENT\<close> counters of SQLite (the largest row id ever used).
\<close>

record password_row =
  pw_id :: int
  pw_service :: string
  pw_username :: string
  pw_encrypted_data :: bytes
  pw_nonce :: bytes

record attachment_row =
  att_id :: int
  att_password_id :: int
  att_filename :: string
  att_encrypted_data :: bytes
  att_nonce :: bytes

record database =
  passwords :: "password_row list"
  passwords_seq :: int
  config_salt :: "bytes option"
  config_password_hash :: "string option"
  attachments :: "attachment_row list"
  attachments_seq :: int

text \<open>
  Everything the process and its environment hold: the database file, the global
  \<^verbatim>\<open>crypto\<close> instance of \<^verbatim>\<open>app.py\<close>, the snapshot directory (file name
  \<^verbatim>\<open>vault_<timestamp>.db\<close>, so one snapshot per second), the clock, the random source,
  what was printed, and \<open>db_fault\<close>: the statement of the next transaction at which
  SQLite raises, if any.
\<close>

record world =
  db :: database
  crypto :: CryptoManager
  snapshots :: "(nat \<times> database) list"
  clock :: nat
  os_random :: rng
  stdout :: "log_line list"
  db_fault :: "nat option"

record updated_entry =
  ue_id :: int
  ue_encrypted_data :: bytes
  ue_nonce :: bytes

text \<open>
  \<^verbatim>\<open>create_snapshot\<close> copies the database file, which exists from start-up on, to the
  file named by the current second; an older copy of the same second is overwritten.
\<close>

definition create_snapshot :: "world \<Rightarrow> world" where
  "create_snapshot w =
     w\<lparr>snapshots := (clock w, db w) # filter (\<lambda>s. fst s \<noteq> clock w) (snapshots w)\<rparr>"

definition next_rowid :: "int \<Rightarrow> int list \<Rightarrow> int" where
  "next_rowid seq ids = fold max ids seq + 1"

definition insert_password :: "string \<Rightarrow> string \<Rightarrow> bytes \<Rightarrow> bytes \<Rightarrow> database \<Rightarrow> database" where
  "insert_password svc usr data n d =
     (let i = next_rowid (passwords_seq d) (map pw_id (passwords d))
      in d\<lparr>passwords := passwords d @
              [\<lparr>pw_id = i, pw_service = svc, pw_username = usr,
                pw_encrypted_data = data, pw_nonce = n\<rparr>],
            passwords_seq := i\<rparr>)"

definition store_password :: "string \<Rightarrow> string \<Rightarrow> bytes \<Rightarrow> bytes \<Rightarrow> world \<Rightarrow> world" where
  "store_password svc usr data n w =
     (let w1 = create_snapshot w in w1\<lparr>db := insert_password svc usr data n (db w1)\<rparr>)"

definition get_passwords :: "world \<Rightarrow> password_row list" where
  "get_passwords w = passwords (db w)"

definition set_master_config :: "bytes \<Rightarrow> string \<Rightarrow> world \<Rightarrow> world" where
  "set_master_config salt password_hash w =
     w\<lparr>db := (db w)\<lparr>config_salt := Some salt, config_password_hash := Some password_hash\<rparr>\<rparr>"

definition get_master_config :: "world \<Rightarrow> bytes option \<times> string option" where
  "get_master_config w = (config_salt (db w), config_password_hash (db w))"

text \<open>\<^verbatim>\<open>UPDATE passwords SET encrypted_data=?, nonce=? WHERE id=?\<close>\<close>

definition update_data :: "updated_entry \<Rightarrow> database \<Rightarrow> database" where
  "update_data entry d =
     d\<lparr>passwords :=
         map (\<lambda>row. if pw_id row = ue_id entry
                     then row\<lparr>pw_encrypted_data := ue_encrypted_data entry,
                              pw_nonce := ue_nonce entry\<rparr>
                     else row)
           (passwords d)\<rparr>"

definition replace_salt :: "bytes \<Rightarrow> database \<Rightarrow> database" where
  "replace_salt salt d = d\<lparr>config_salt := Some salt\<rparr>"

definition replace_password_hash :: "string \<Rightarrow> database \<Rightarrow> database" where
  "replace_password_hash h d = d\<lparr>config_password_hash := Some h\<rparr>"

text \<open>
  The statements of one transaction, run in order on the connection's view of the
  database and followed by the commit. \<open>fault = Some k\<close> makes step \<open>k\<close> raise (the
  commit is the step after the last statement); a larger \<open>k\<close> never fires.
\<close>

fun execute_all :: "nat option \<Rightarrow> (database \<Rightarrow> database) list \<Rightarrow> database \<Rightarrow> exn + database" where
  "execute_all fault [] d = (if fault = Some 0 then Inl OperationalError else Inr d)"
| "execute_all fault (stmt # stmts) d =
     (if fault = Some 0 then Inl OperationalError
      else execute_all (map_option (\<lambda>k. k - 1) fault) stmts (stmt d))"

text \<open>
  \<^verbatim>\<open>batch_update_passwords_and_config\<close>: the snapshot is taken before the
  transaction; on an exception the rollback leaves the database file as it was and the
  exception is raised again.
\<close>

definition batch_update_passwords_and_config ::
  "updated_entry list \<Rightarrow> bytes \<Rightarrow> string \<Rightarrow> world \<Rightarrow> (exn + unit) \<times> world" where
  "batch_update_passwords_and_config updated_entries new_salt new_pw_hash w =
     (let w1 = create_snapshot w
      in case execute_all (db_fault w1)
                (map update_data updated_entries @
                 [replace_salt new_salt, replace_password_hash new_pw_hash])
                (db w1) of
           Inl e \<Rightarrow> (Inl e, w1)
         | Inr d \<Rightarrow> (Inr (), w1\<lparr>db := d\<rparr>))"

definition insert_attachment :: "int \<Rightarrow> string \<Rightarrow> bytes \<Rightarrow> bytes \<Rightarrow> database \<Rightarrow> database" where
  "insert_attachment password_id filename data n d =
     (let i = next_rowid (attachments_seq d) (map att_id (attachments d))
      in d\<lparr>attachments := attachments d @
              [\<lparr>att_id = i, att_password_id = password_id, att_filename = filename,
                att_encrypted_data = data, att_nonce = n\<rparr>],
            attachments_seq := i\<rparr>)"

definition add_attachment :: "int \<Rightarrow> string \<Rightarrow> bytes \<Rightarrow> bytes \<Rightarrow> world \<Rightarrow> world" where
  "add_attachment password_id filename data n w =
     (let w1 = create_snapshot w
      in w1\<lparr>db := insert_attachment password_id filename data n (db w1)\<rparr>)"

definition get_attachments :: "int \<Rightarrow> world \<Rightarrow> (int \<times> string) list" where
  "get_attachments password_id w =
     map (\<lambda>row. (att_id row, att_filename row))
       (filter (\<lambda>row. att_password_id row = password_id) (attachments (db w)))"

definition get_attachment :: "int \<Rightarrow> world \<Rightarrow> attachment_row option" where
  "get_attachment attachment_id w =
     find (\<lambda>row. att_id row = attachment_id) (attachments (db w))"

text \<open>\<^verbatim>\<open>db_manager.delete_attachment\<close>; the endpoint of \<^verbatim>\<open>app.py\<close> has the name.\<close>

definition delete_attachment_row :: "int \<Rightarrow> world \<Rightarrow> world" where
  "delete_attachment_row attachment_id w =
     (let w1 = create_snapshot w
      in w1\<lparr>db := (db w1)\<lparr>attachments :=
                filter (\<lambda>row. att_id row \<noteq> attachment_id) (attachments (db w1))\<rparr>\<rparr>)"

section \<open>app.py\<close>

text \<open>
  The endpoints as functions from the state before the request to the answer and the
  state after it. Routing, the rate limiter and the middleware in front of the
  endpoints are not part of the model.
\<close>

text \<open>
  The \<^verbatim>\<open>detail\<close> of each \<^verbatim>\<open>HTTPException\<close> the endpoints raise, and what an
  endpoint ends with when it does not return: the \<^verbatim>\<open>HTTPException\<close> with its status
  code, or an exception nothing catches.
\<close>

datatype detail =
    Vault_is_locked
  | Vault_already_initialized
  | Vault_not_initialized
  | Invalid_password
  | Key_derivation_failed_detail
  | Invalid_current_password
  | Failed_to_decrypt_password_ID_Aborting_rotation int
  | Failed_to_derive_new_key
  | Database_update_failed exn
  | Attachment_not_found
  | Decryption_failed exn
  | Exception_text exn

datatype failure =
    HTTPException nat detail
  | Unhandled exn

datatype message =
    Vault_initialized_and_unlocked
  | Vault_unlocked
  | Vault_locked
  | Master_password_changed_successfully
  | Attachment_uploaded
  | Attachment_deleted

record PasswordEntry =
  entry_id :: "int option"
  entry_service :: string
  entry_username :: string
  entry_password :: string

record PasswordResponse =
  resp_id :: int
  resp_service :: string
  resp_username :: string
  resp_password :: string

record ChangePasswordRequest =
  current_password :: string
  new_password :: string

record decrypted_entry =
  de_id :: int
  de_plaintext :: string

text \<open>Python's truth value of an optional byte string and of an optional text.\<close>

definition truthy :: "'a list option \<Rightarrow> bool" where
  "truthy v = (case v of None \<Rightarrow> False | Some x \<Rightarrow> x \<noteq> [])"

text \<open>\<^verbatim>\<open>ph.verify(stored_hash, password)\<close> inside \<^verbatim>\<open>try\<close>: \<open>False\<close> where it raises.\<close>

definition verify :: "prims \<Rightarrow> string option \<Rightarrow> string \<Rightarrow> bool" where
  "verify P stored_hash password =
     (case stored_hash of None \<Rightarrow> False | Some h \<Rightarrow> ph_verify P h password)"

definition get_crypto :: "world \<Rightarrow> failure + CryptoManager" where
  "get_crypto w =
     (if \<not> is_unlocked (crypto w) then Inl (HTTPException 401 Vault_is_locked)
      else Inr (crypto w))"

definition get_status :: "world \<Rightarrow> bool \<times> bool" where
  "get_status w =
     (case get_master_config w of (salt, _) \<Rightarrow> (salt \<noteq> None, is_unlocked (crypto w)))"

definition initialize_vault :: "prims \<Rightarrow> string \<Rightarrow> world \<Rightarrow> (failure + message) \<times> world" where
  "initialize_vault P password w =
     (case get_master_config w of
        (existing_salt, _) \<Rightarrow>
          if truthy existing_salt then (Inl (HTTPException 400 Vault_already_initialized), w)
          else
            (case generate_salt (os_random w) of
               (salt, r1) \<Rightarrow>
                 (case urandom 16 r1 of
                    (hs, r2) \<Rightarrow>
                      (let pw_hash = ph_hash P hs password;
                           w1 = set_master_config salt pw_hash (w\<lparr>os_random := r2\<rparr>)
                       in case unlock P (crypto w1) password (Some salt) of
                            (success, c, out) \<Rightarrow>
                              (Inr Vault_initialized_and_unlocked,
                               w1\<lparr>crypto := c, stdout := stdout w1 @ out\<rparr>)))))"

definition unlock_vault :: "prims \<Rightarrow> string \<Rightarrow> world \<Rightarrow> (failure + message) \<times> world" where
  "unlock_vault P password w =
     (case get_master_config w of
        (salt, stored_hash) \<Rightarrow>
          if \<not> truthy salt \<or> \<not> truthy stored_hash
          then (Inl (HTTPException 400 Vault_not_initialized), w)
          else if \<not> verify P stored_hash password
          then (Inl (HTTPException 401 Invalid_password), w)
          else
            (case unlock P (crypto w) password salt of
               (success, c, out) \<Rightarrow>
                 (let w1 = w\<lparr>crypto := c, stdout := stdout w @ out\<rparr>
                  in if \<not> success
                     then (Inl (HTTPException 500 Key_derivation_failed_detail), w1)
                     else (Inr Vault_unlocked, w1))))"

definition lock_vault :: "world \<Rightarrow> message \<times> world" where
  "lock_vault w = (Vault_locked, w\<lparr>crypto := lock (crypto w)\<rparr>)"

text \<open>
  The loop of \<^verbatim>\<open>list_passwords\<close>: \<open>results\<close> and \<open>out\<close> are the list built so far
  and the lines printed so far.
\<close>

fun list_loop ::
  "prims \<Rightarrow> CryptoManager \<Rightarrow> password_row list \<Rightarrow> PasswordResponse list \<Rightarrow> log_line list
     \<Rightarrow> PasswordResponse list \<times> log_line list" where
  "list_loop P c [] results out = (results, out)"
| "list_loop P c (row # rows) results out =
     (case decrypt P c (pw_nonce row) (pw_encrypted_data row) of
        Inr decrypted_pw \<Rightarrow>
          list_loop P c rows
            (results @ [\<lparr>resp_id = pw_id row, resp_service = pw_service row,
                          resp_username = pw_username row, resp_password = decrypted_pw\<rparr>])
            out
      | Inl e \<Rightarrow> list_loop P c rows results (out @ [Failed_to_decrypt_ID (pw_id row) e]))"

definition list_passwords :: "prims \<Rightarrow> world \<Rightarrow> (failure + PasswordResponse list) \<times> world" where
  "list_passwords P w =
     (case get_crypto w of
        Inl e \<Rightarrow> (Inl e, w)
      | Inr c \<Rightarrow>
          (case list_loop P c (get_passwords w) [] (stdout w) of
             (results, out) \<Rightarrow> (Inr results, w\<lparr>stdout := out\<rparr>)))"

definition add_password ::
  "prims \<Rightarrow> PasswordEntry \<Rightarrow> world \<Rightarrow> (failure + PasswordResponse) \<times> world" where
  "add_password P entry w =
     (case get_crypto w of
        Inl e \<Rightarrow> (Inl e, w)
      | Inr c \<Rightarrow>
          (case encrypt P c (entry_password entry) (os_random w) of
             (Inl e, r) \<Rightarrow> (Inl (Unhandled e), w\<lparr>os_random := r\<rparr>)
           | (Inr encrypted, r) \<Rightarrow>
               (Inr \<lparr>resp_id = 0, resp_service = entry_service entry,
                     resp_username = entry_username entry,
                     resp_password = entry_password entry\<rparr>,
                store_password (entry_service entry) (entry_username entry)
                  (ciphertext encrypted) (nonce encrypted) (w\<lparr>os_random := r\<rparr>))))"

text \<open>Step 3 of \<^verbatim>\<open>change_master_password\<close>: decrypt everything, or stop at the first failure.\<close>

fun decrypt_loop ::
  "prims \<Rightarrow> CryptoManager \<Rightarrow> password_row list \<Rightarrow> decrypted_entry list
     \<Rightarrow> failure + decrypted_entry list" where
  "decrypt_loop P c [] decrypted_entries = Inr decrypted_entries"
| "decrypt_loop P c (row # rows) decrypted_entries =
     (case decrypt P c (pw_nonce row) (pw_encrypted_data row) of
        Inr pt \<Rightarrow>
          decrypt_loop P c rows
            (decrypted_entries @ [\<lparr>de_id = pw_id row, de_plaintext = pt\<rparr>])
      | Inl e \<Rightarrow>
          Inl (HTTPException 500 (Failed_to_decrypt_password_ID_Aborting_rotation (pw_id row))))"

text \<open>Step 6: encrypt every plaintext again with the temporary manager.\<close>

fun re_encrypt_loop ::
  "prims \<Rightarrow> CryptoManager \<Rightarrow> decrypted_entry list \<Rightarrow> updated_entry list \<Rightarrow> rng
     \<Rightarrow> (exn + updated_entry list) \<times> rng" where
  "re_encrypt_loop P temp_crypto [] re_encrypted_entries r = (Inr re_encrypted_entries, r)"
| "re_encrypt_loop P temp_crypto (entry # entries) re_encrypted_entries r =
     (case encrypt P temp_crypto (de_plaintext entry) r of
        (Inl e, r') \<Rightarrow> (Inl e, r')
      | (Inr enc, r') \<Rightarrow>
          re_encrypt_loop P temp_crypto entries
            (re_encrypted_entries @
               [\<lparr>ue_id = de_id entry, ue_encrypted_data = ciphertext enc, ue_nonce = nonce enc\<rparr>])
            r')"

text \<open>
  Steps 4 to 8 of \<^verbatim>\<open>change_master_password\<close>, entered once every stored password
  has been decrypted: new salt and verifier, the temporary manager with the new key,
  re-encryption, the batch update, and the swap of the global manager's key.
\<close>

definition rotate_to_new_key ::
  "prims \<Rightarrow> ChangePasswordRequest \<Rightarrow> decrypted_entry list \<Rightarrow> world
     \<Rightarrow> (failure + message) \<times> world" where
  "rotate_to_new_key P req decrypted_entries w =
     (let (new_salt, r1) = generate_salt (os_random w);
          (hs, r2) = urandom 16 r1;
          new_pw_hash = ph_hash P hs (new_password req);
          (success, temp_crypto, out) =
             unlock P CryptoManager_init (new_password req) (Some new_salt);
          w1 = w\<lparr>os_random := r2, stdout := stdout w @ out\<rparr>
      in if \<not> success then (Inl (HTTPException 500 Failed_to_derive_new_key), w1)
         else
           (case re_encrypt_loop P temp_crypto decrypted_entries [] r2 of
              (Inl e, r3) \<Rightarrow> (Inl (Unhandled e), w1\<lparr>os_random := r3\<rparr>)
            | (Inr re_encrypted_entries, r3) \<Rightarrow>
                (case batch_update_passwords_and_config re_encrypted_entries new_salt
                        new_pw_hash (w1\<lparr>os_random := r3\<rparr>) of
                   (Inl e, w2) \<Rightarrow> (Inl (HTTPException 500 (Database_update_failed e)), w2)
                 | (Inr u, w2) \<Rightarrow>
                     (let (ok, c', out') =
                            unlock P (crypto w2) (new_password req) (Some new_salt)
                      in (Inr Master_password_changed_successfully,
                          w2\<lparr>crypto := c', stdout := stdout w2 @ out'\<rparr>)))))"

definition change_master_password ::
  "prims \<Rightarrow> ChangePasswordRequest \<Rightarrow> world \<Rightarrow> (failure + message) \<times> world" where
  "change_master_password P req w =
     (case get_crypto w of
        Inl e \<Rightarrow> (Inl e, w)
      | Inr c \<Rightarrow>
          if \<not> verify P (snd (get_master_config w)) (current_password req)
          then (Inl (HTTPException 401 Invalid_current_password), w)
          else
            (case decrypt_loop P c (get_passwords w) [] of
               Inl e \<Rightarrow> (Inl e, w)
             | Inr decrypted_entries \<Rightarrow> rotate_to_new_key P req decrypted_entries w))"

definition list_attachments :: "int \<Rightarrow> world \<Rightarrow> (failure + (int \<times> string) list) \<times> world" where
  "list_attachments entry w =
     (case get_crypto w of
        Inl e \<Rightarrow> (Inl e, w)
      | Inr c \<Rightarrow> (Inr (get_attachments entry w), w))"

definition upload_attachment ::
  "prims \<Rightarrow> int \<Rightarrow> string \<Rightarrow> bytes \<Rightarrow> world \<Rightarrow> (failure + message) \<times> world" where
  "upload_attachment P entry filename content w =
     (case get_crypto w of
        Inl e \<Rightarrow> (Inl e, w)
      | Inr c \<Rightarrow>
          (case encrypt_bytes P c content (os_random w) of
             (Inl e, r) \<Rightarrow> (Inl (HTTPException 500 (Exception_text e)), w\<lparr>os_random := r\<rparr>)
           | (Inr enc, r) \<Rightarrow>
               (Inr Attachment_uploaded,
                add_attachment entry filename (ciphertext enc) (nonce enc)
                  (w\<lparr>os_random := r\<rparr>))))"

definition download_attachment :: "prims \<Rightarrow> int \<Rightarrow> world \<Rightarrow> (failure + bytes) \<times> world" where
  "download_attachment P attachment_id w =
     (case get_crypto w of
        Inl e \<Rightarrow> (Inl e, w)
      | Inr c \<Rightarrow>
          (case get_attachment attachment_id w of
             None \<Rightarrow> (Inl (HTTPException 404 Attachment_not_found), w)
           | Some row \<Rightarrow>
               (case decrypt_bytes P c (att_nonce row) (att_encrypted_data row) of
                  Inl e \<Rightarrow> (Inl (HTTPException 500 (Decryption_failed e)), w)
                | Inr pt \<Rightarrow> (Inr pt, w))))"

definition delete_attachment :: "int \<Rightarrow> world \<Rightarrow> (failure + message) \<times> world" where
  "delete_attachment attachment_id w =
     (case get_crypto w of
        Inl e \<Rightarrow> (Inl e, w)
      | Inr c \<Rightarrow> (Inr Attachment_deleted, delete_attachment_row attachment_id w))"

text \<open>
  The endpoints that depend on \<^verbatim>\<open>get_crypto\<close>, as requests, and a server that answers
  a sequence of them, keeping of every answer only how it failed. (The CSV import is
  left out: it is the same guard followed by \<^verbatim>\<open>store_password\<close> calls.)
\<close>

datatype request =
    List_passwords
  | Add_password PasswordEntry
  | Change_master_password ChangePasswordRequest
  | List_attachments int
  | Upload_attachment int string bytes
  | Download_attachment int
  | Delete_attachment int

definition failure_of :: "(failure + 'a) \<times> world \<Rightarrow> failure option \<times> world" where
  "failure_of res = (case fst res of Inl e \<Rightarrow> Some e | Inr v \<Rightarrow> None, snd res)"

fun serve :: "prims \<Rightarrow> request \<Rightarrow> world \<Rightarrow> failure option \<times> world" where
  "serve P List_passwords w = failure_of (list_passwords P w)"
| "serve P (Add_password entry) w = failure_of (add_password P entry w)"
| "serve P (Change_master_password req) w = failure_of (change_master_password P req w)"
| "serve P (List_attachments entry) w = failure_of (list_attachments entry w)"
| "serve P (Upload_attachment entry filename content) w =
     failure_of (upload_attachment P entry filename content w)"
| "serve P (Download_attachment attachment_id) w =
     failure_of (download_attachment P attachment_id w)"
| "serve P (Delete_attachment attachment_id) w = failure_of (delete_attachment attachment_id w)"

fun serve_all :: "prims \<Rightarrow> request list \<Rightarrow> world \<Rightarrow> failure option list \<times> world" where
  "serve_all P [] w = ([], w)"
| "serve_all P (rq # rqs) w =
     (case serve P rq w of
        (res, w1) \<Rightarrow> (case serve_all P rqs w1 of (ress, w2) \<Rightarrow> (res # ress, w2)))"

text \<open>A stored password that the manager cannot decrypt.\<close>

definition fails_to_decrypt :: "prims \<Rightarrow> CryptoManager \<Rightarrow> password_row \<Rightarrow> bool" where
  "fails_to_decrypt P c row = isl (decrypt P c (pw_nonce row) (pw_encrypted_data row))"

text \<open>A stored row with the ciphertext and nonce of an entry of the batch update.\<close>

definition re_keyed :: "password_row \<Rightarrow> updated_entry \<Rightarrow> password_row" where
  "re_keyed row u = row\<lparr>pw_encrypted_data := ue_encrypted_data u, pw_nonce := ue_nonce u\<rparr>"

section \<open>What the vault relies on in its libraries\<close>

text \<open>
  AES-GCM decrypts what it encrypted, for the key sizes \<^verbatim>\<open>AESGCM\<close> accepts and the
  12-byte nonces \<^verbatim>\<open>encrypt_bytes\<close> draws.
\<close>

definition aead_round_trip :: "prims \<Rightarrow> bool" where
  "aead_round_trip P =
     (\<forall>k n p. (length k = 16 \<or> length k = 24 \<or> length k = 32) \<and> length n = 12
        \<longrightarrow> aesgcm_decrypt P k n (aesgcm_encrypt P k n p) = Inr p)"

text \<open>Decoding an encoded text gives the text back.\<close>

definition codec_round_trip :: "prims \<Rightarrow> bool" where
  "codec_round_trip P = (\<forall>s. bytes_decode P (str_encode P s) = Some s)"

text \<open>
  The password hasher as an ideal verifier: a hash is never empty, and it verifies
  the password it was made from and no other.
\<close>

definition verifier_exact :: "prims \<Rightarrow> bool" where
  "verifier_exact P =
     (\<forall>hs p q. ph_hash P hs p \<noteq> [] \<and> ph_verify P (ph_hash P hs p) q = (p = q))"

text \<open>Argon2 returns a key of the 32 bytes asked for whenever the salt has 16 bytes.\<close>

definition kdf_total :: "prims \<Rightarrow> bool" where
  "kdf_total P =
     (\<forall>secret salt. length salt = 16
        \<longrightarrow> (\<exists>k. hash_secret_raw P secret salt = Inr k \<and> length k = 32))"

text \<open>One bit of a byte string flipped: bit \<open>i mod 8\<close> of byte \<open>i div 8\<close>.\<close>

definition flip_bit_at :: "nat \<Rightarrow> bytes \<Rightarrow> bytes" where
  "flip_bit_at i bs = bs[i div 8 := flip_bit (i mod 8) (bs ! (i div 8))]"

text \<open>
  AES-GCM rejects what differs in one bit from what it produced under a 32-byte key
  and a 12-byte nonce: a flipped bit of the nonce, or of the ciphertext with its tag.
\<close>

definition aead_tamper_evident :: "prims \<Rightarrow> bool" where
  "aead_tamper_evident P =
     (\<forall>k n p i. length k = 32 \<and> length n = 12 \<longrightarrow>
        (i < 8 * length n \<longrightarrow>
           isl (aesgcm_decrypt P k (flip_bit_at i n) (aesgcm_encrypt P k n p)))
      \<and> (i < 8 * length (aesgcm_encrypt P k n p) \<longrightarrow>
           isl (aesgcm_decrypt P k n (flip_bit_at i (aesgcm_encrypt P k n p)))))"

text \<open>AES-GCM rejects, under a 32-byte key, what it produced under another.\<close>

definition aead_key_bound :: "prims \<Rightarrow> bool" where
  "aead_key_bound P =
     (\<forall>k k' n p. length k = 32 \<and> length k' = 32 \<and> length n = 12 \<and> k' \<noteq> k \<longrightarrow>
        isl (aesgcm_decrypt P k' n (aesgcm_encrypt P k n p)))"

section \<open>A small instance to run the vault on\<close>

text \<open>
  Stand-ins for the libraries that can be evaluated: the key is the first 32 bytes of
  secret, salt and padding; a ciphertext is key, nonce and plaintext in a row and is
  accepted when it starts with the key and nonce given; a hash is the password after
  a dollar sign.
\<close>

definition example_encode :: "string \<Rightarrow> bytes" where
  "example_encode s = map (\<lambda>c. of_nat (of_char c)) s"

definition example_decode :: "bytes \<Rightarrow> string option" where
  "example_decode b = Some (map (\<lambda>x. char_of (unat x)) b)"

definition example_prims :: prims where
  "example_prims =
     \<lparr>hash_secret_raw = (\<lambda>secret salt. Inr (take 32 (secret @ salt @ replicate 32 0))),
      ph_hash = (\<lambda>hs password. CHR ''$'' # password),
      ph_verify = (\<lambda>h password. h = CHR ''$'' # password),
      aesgcm_encrypt = (\<lambda>k n p. k @ n @ p),
      aesgcm_decrypt =
        (\<lambda>k n c. if take (length k + length n) c = k @ n
                 then Inr (drop (length k + length n) c) else Inl InvalidTag),
      str_encode = example_encode,
      bytes_decode = example_decode\<rparr>"

definition example_salt :: bytes where
  "example_salt = [0, 1, 2, 3, 4, 5, 6, 7, 8, 9, 10, 11, 12, 13, 14, 15]"

definition example_nonce :: bytes where
  "example_nonce = [1, 1, 2, 3, 5, 8, 13, 21, 34, 55, 89, 144]"

text \<open>The key of the master password \<open>Secret1\<close> under \<open>example_salt\<close>.\<close>

definition example_key :: bytes where
  "example_key =
     [83, 101, 99, 114, 101, 116, 49, 0, 1, 2, 3, 4, 5, 6, 7, 8, 9, 10, 11, 12, 13, 14, 15,
      0, 0, 0, 0, 0, 0, 0, 0, 0]"

definition empty_database :: database where
  "empty_database =
     \<lparr>passwords = [], passwords_seq = 0, config_salt = None, config_password_hash = None,
      attachments = [], attachments_seq = 0\<rparr>"

text \<open>A vault after start-up, before \<^verbatim>\<open>/api/init\<close>.\<close>

definition fresh_world :: world where
  "fresh_world =
     \<lparr>db = empty_database, crypto = CryptoManager_init, snapshots = [], clock = 0,
      os_random = (\<lambda>i. of_nat i), stdout = [], db_fault = None\<rparr>"

text \<open>
  An unlocked vault with master password \<open>Secret1\<close>, the password \<open>hunter2\<close> stored
  for \<open>email\<close>, and one attachment of three bytes.
\<close>

definition example_row :: password_row where
  "example_row =
     \<lparr>pw_id = 1, pw_service = ''email'', pw_username = ''a@x.com'',
      pw_encrypted_data = example_key @ example_nonce @ example_encode ''hunter2'',
      pw_nonce = example_nonce\<rparr>"

definition example_attachment :: attachment_row where
  "example_attachment =
     \<lparr>att_id = 1, att_password_id = 1, att_filename = ''note.txt'',
      att_encrypted_data = example_key @ example_nonce @ [10, 20, 30],
      att_nonce = example_nonce\<rparr>"

definition example_world :: world where
  "example_world =
     \<lparr>db = \<lparr>passwords = [example_row], passwords_seq = 1,
             config_salt = Some example_salt, config_password_hash = Some ''$Secret1'',
             attachments = [example_attachment], attachments_seq = 1\<rparr>,
      crypto = \<lparr>master_key = Some example_key\<rparr>, snapshots = [], clock = 0,
      os_random = (\<lambda>i. of_nat i), stdout = [], db_fault = None\<rparr>"

text \<open>
  The same vault with a second stored password whose ciphertext has lost
  all but one byte.
\<close>

definition corrupt_row :: password_row where
  "corrupt_row =
     \<lparr>pw_id = 2, pw_service = ''bank'', pw_username = ''a'',
      pw_encrypted_data = [0], pw_nonce = example_nonce\<rparr>"

definition corrupt_world :: world where
  "corrupt_world =
     example_world\<lparr>db := (db example_world)\<lparr>passwords := [example_row, corrupt_row],
                                              passwords_seq := 2\<rparr>\<rparr>"

text \<open>The key of the master password \<open>Secret2\<close> under \<open>example_salt\<close>.\<close>

definition example_new_key :: bytes where
  "example_new_key =
     [83, 101, 99, 114, 101, 116, 50, 0, 1, 2, 3, 4, 5, 6, 7, 8, 9, 10, 11, 12, 13, 14, 15,
      0, 0, 0, 0, 0, 0, 0, 0, 0]"

text \<open>A rotation of the example vault, and a new entry for it.\<close>

definition example_rotation :: ChangePasswordRequest where
  "example_rotation = \<lparr>current_password = ''Secret1'', new_password = ''Secret2''\<rparr>"

definition example_entry :: PasswordEntry where
  "example_entry =
     \<lparr>entry_id = None, entry_service = ''bank'', entry_username = ''a'',
      entry_password = ''pw''\<rparr>"

text \<open>The example vault after \<^verbatim>\<open>/api/lock\<close>.\<close>

definition locked_world :: world where
  "locked_world = example_world\<lparr>crypto := \<lparr>master_key = None\<rparr>\<rparr>"

text \<open>
  A second stand-in for AES-GCM, which also notices a changed payload: the ciphertext
  is key, nonce and the plaintext twice, and is accepted when it starts with the key
  and nonce given and its rest is some byte string twice.
\<close>

definition sealed :: "bytes \<Rightarrow> bytes \<Rightarrow> bytes \<Rightarrow> bytes" where
  "sealed k n p = k @ n @ p @ p"

definition opened :: "bytes \<Rightarrow> bytes \<Rightarrow> bytes \<Rightarrow> exn + bytes" where
  "opened k n c =
     (let body = drop (length k + length n) c; h = length body div 2
      in if take (length k + length n) c = k @ n \<and> body = take h body @ take h body
         then Inr (take h body) else Inl InvalidTag)"

definition authentic_prims :: prims where
  "authentic_prims = example_prims\<lparr>aesgcm_encrypt := sealed, aesgcm_decrypt := opened\<rparr>"

section \<open>Facts about the instance and the random source\<close>

lemma length_urandom: "length (fst (urandom n r)) = n"
  by (simp add: urandom_def)

lemma example_aead_round_trip: "aead_round_trip example_prims"
  by (simp add: aead_round_trip_def example_prims_def)

lemma example_codec_round_trip: "codec_round_trip example_prims"
proof -
  have "map (\<lambda>x. char_of (unat x)) (map (\<lambda>c. (of_nat (of_char c) :: byte)) s) = s" for s
    by (induction s) (simp_all add: unat_of_nat)
  then show ?thesis
    by (simp add: codec_round_trip_def example_prims_def example_encode_def example_decode_def)
qed

lemma example_verifier_exact: "verifier_exact example_prims"
  by (simp add: verifier_exact_def example_prims_def)

lemma example_kdf_total: "kdf_total example_prims"
  unfolding kdf_total_def example_prims_def by (simp add: min_def)

lemma example_salt_nonempty: "example_salt \<noteq> []"
  by (simp add: example_salt_def)

lemma example_ph_verify: "ph_verify example_prims h password = (h = CHR ''$'' # password)"
  by (simp add: example_prims_def)

lemma example_key_length: "length example_key = 32"
  by (simp add: example_key_def)

lemma example_derive_key: "derive_key example_prims ''Secret1'' example_salt = Inr example_key"
  by (simp add: derive_key_def example_prims_def example_encode_def example_salt_def
      example_key_def eval_nat_numeral)

section \<open>AES-GCM under the master key\<close>

text \<open>
  Claim C4 (AEAD round trip). For every manager holding a 32-byte key and every byte
  payload, \<^verbatim>\<open>encrypt_bytes\<close> returns a nonce and a ciphertext, and \<^verbatim>\<open>decrypt_bytes\<close>
  of that pair under the same key returns exactly the payload. The only fact used of
  the library is that AES-GCM decrypts what it encrypted.
\<close>

theorem encrypt_bytes_decrypt_bytes_round_trip:
  assumes "aead_round_trip P" and "master_key self = Some K" and "length K = 32"
  shows "\<exists>enc r'. encrypt_bytes P self plaintext r = (Inr enc, r')
           \<and> decrypt_bytes P self (nonce enc) (ciphertext enc) = Inr plaintext"
  using assms
  by (auto simp: encrypt_bytes_def decrypt_bytes_def AESGCM_def aead_round_trip_def urandom_def
      split: prod.splits)

theorem encrypt_bytes_decrypt_bytes_round_trip_witness:
  "aead_round_trip example_prims
   \<and> master_key \<lparr>master_key = Some example_key\<rparr> = Some example_key
   \<and> length example_key = 32
   \<and> (\<exists>enc r'. encrypt_bytes example_prims \<lparr>master_key = Some example_key\<rparr> [10, 20, 30]
                   (\<lambda>i. of_nat i) = (Inr enc, r')
           \<and> decrypt_bytes example_prims \<lparr>master_key = Some example_key\<rparr>
                (nonce enc) (ciphertext enc) = Inr [10, 20, 30])"
proof -
  have k: "master_key \<lparr>master_key = Some example_key\<rparr> = Some example_key"
    by simp
  show ?thesis
    using encrypt_bytes_decrypt_bytes_round_trip [OF example_aead_round_trip k example_key_length]
      example_aead_round_trip k example_key_length
    by blast
qed

text \<open>
  \<^verbatim>\<open>decrypt_bytes\<close> has no handler: whatever AES-GCM raises (the tag does not verify)
  is what the caller gets, and no plaintext.
\<close>

lemma decrypt_bytes_fails_closed:
  assumes "master_key self = Some k" and "length k = 32"
    and "aesgcm_decrypt P k n c = Inl e"
  shows "decrypt_bytes P self n c = Inl e" and "decrypt P self n c = Inl e"
  using assms by (auto simp: decrypt_def decrypt_bytes_def AESGCM_def)

section \<open>Unlocking and locking\<close>

text \<open>
  Claim C6 (unlock verifies before deriving). On an initialised vault,
  \<^verbatim>\<open>unlock_vault\<close> checks the password against the stored verifier hash first. A
  password that fails the check is answered with 401 and the whole state is left as it
  was (a locked vault stays without a key), whatever the key derivation function is:
  it is not consulted. A password that passes is derived into the key, and the vault
  is unlocked with it exactly when the derivation returns a key.
\<close>

theorem unlock_vault_verifies_before_deriving:
  assumes "config_salt (db w) = Some salt" and "salt \<noteq> []"
    and "config_password_hash (db w) = Some h" and "h \<noteq> []"
  shows "(\<not> ph_verify P h password \<longrightarrow>
            (\<forall>kdf. unlock_vault (P\<lparr>hash_secret_raw := kdf\<rparr>) password w =
               (Inl (HTTPException 401 Invalid_password), w)))
       \<and> (ph_verify P h password \<longrightarrow>
            (\<forall>key. derive_key P password salt = Inr key \<longrightarrow>
               unlock_vault P password w =
                 (Inr Vault_unlocked, w\<lparr>crypto := (crypto w)\<lparr>master_key := Some key\<rparr>\<rparr>))
          \<and> (\<forall>e. derive_key P password salt = Inl e \<longrightarrow>
               unlock_vault P password w =
                 (Inl (HTTPException 500 Key_derivation_failed_detail),
                  w\<lparr>stdout := stdout w @ [Key_derivation_failed e]\<rparr>)))"
  using assms
  by (auto simp: unlock_vault_def get_master_config_def truthy_def verify_def unlock_def)

theorem unlock_vault_verifies_before_deriving_witness:
  "config_salt (db locked_world) = Some example_salt \<and> example_salt \<noteq> []
   \<and> config_password_hash (db locked_world) = Some ''$Secret1'' \<and> ''$Secret1'' \<noteq> []
   \<and> \<not> ph_verify example_prims ''$Secret1'' ''guess''
   \<and> unlock_vault example_prims ''guess'' locked_world =
        (Inl (HTTPException 401 Invalid_password), locked_world)
   \<and> \<not> is_unlocked (crypto locked_world)
   \<and> ph_verify example_prims ''$Secret1'' ''Secret1''
   \<and> unlock_vault example_prims ''Secret1'' locked_world = (Inr Vault_unlocked, example_world)"
proof -
  have s: "config_salt (db locked_world) = Some example_salt"
    by (simp add: locked_world_def example_world_def)
  have s': "example_salt \<noteq> []"
    by (simp add: example_salt_def)
  have h: "config_password_hash (db locked_world) = Some ''$Secret1''"
    by (simp add: locked_world_def example_world_def)
  have h': "''$Secret1'' \<noteq> []"
    by simp
  have bad: "\<not> ph_verify example_prims ''$Secret1'' ''guess''"
    by (simp add: example_prims_def)
  have good: "ph_verify example_prims ''$Secret1'' ''Secret1''"
    by (simp add: example_prims_def)
  have locked: "\<not> is_unlocked (crypto locked_world)"
    by (simp add: locked_world_def is_unlocked_def)
  have same: "example_prims\<lparr>hash_secret_raw := hash_secret_raw example_prims\<rparr> = example_prims"
    by simp
  have restored:
    "locked_world\<lparr>crypto := (crypto locked_world)\<lparr>master_key := Some example_key\<rparr>\<rparr>
      = example_world"
    by (simp add: locked_world_def example_world_def)
  from unlock_vault_verifies_before_deriving [OF s s' h h', of example_prims "''guess''"]
    bad same
  have 1: "unlock_vault example_prims ''guess'' locked_world =
        (Inl (HTTPException 401 Invalid_password), locked_world)"
    by metis
  from unlock_vault_verifies_before_deriving [OF s s' h h', of example_prims "''Secret1''"]
    good example_derive_key restored
  have 2: "unlock_vault example_prims ''Secret1'' locked_world =
        (Inr Vault_unlocked, example_world)"
    by metis
  from s s' h h' bad good locked 1 2 show ?thesis by blast
qed

lemma serve_locked:
  "\<not> is_unlocked (crypto w) \<Longrightarrow> serve P rq w = (Some (HTTPException 401 Vault_is_locked), w)"
  by (cases rq)
    (simp_all add: failure_of_def get_crypto_def list_passwords_def add_password_def
      change_master_password_def list_attachments_def upload_attachment_def
      download_attachment_def delete_attachment_def)

lemma serve_all_locked:
  "\<not> is_unlocked (crypto w) \<Longrightarrow>
   serve_all P rqs w = (replicate (length rqs) (Some (HTTPException 401 Vault_is_locked)), w)"
  by (induction rqs) (simp_all add: serve_locked)

text \<open>
  Claim C9 (locked-state guard). After \<^verbatim>\<open>lock_vault\<close> the manager is not unlocked,
  \<^verbatim>\<open>list_passwords\<close> fails with 401 "Vault is locked", and so does every request of
  any later sequence of requests to the guarded endpoints (list, add, change of the
  master password, and the four attachment endpoints). The state after the sequence
  is the state right after the lock, whatever the database holds and whatever the
  library functions are: no stored record is read or decrypted.
\<close>

theorem locked_vault_rejects_every_request:
  "\<not> is_unlocked (crypto (snd (lock_vault w)))
   \<and> list_passwords P (snd (lock_vault w)) =
       (Inl (HTTPException 401 Vault_is_locked), snd (lock_vault w))
   \<and> serve_all P rqs (snd (lock_vault w)) =
       (replicate (length rqs) (Some (HTTPException 401 Vault_is_locked)), snd (lock_vault w))"
proof -
  have l: "\<not> is_unlocked (crypto (snd (lock_vault w)))"
    by (simp add: lock_vault_def lock_def is_unlocked_def)
  then have "list_passwords P (snd (lock_vault w)) =
       (Inl (HTTPException 401 Vault_is_locked), snd (lock_vault w))"
    by (simp add: list_passwords_def get_crypto_def)
  with l serve_all_locked [OF l] show ?thesis by blast
qed

section \<open>Initialisation\<close>

text \<open>
  Claim C10 (init is rejected on an initialised vault). When the configuration holds
  a salt (one that Python takes for true: not the empty byte string, which the code
  never stores), \<^verbatim>\<open>initialize_vault\<close> fails with 400 "Vault already initialized" and
  the whole state (configuration, stored passwords, attachments, key) is unchanged. When
  there is no configuration, it stores 16 fresh random bytes as the salt and the
  verifier hash of the password, leaves the stored passwords and attachments alone,
  and the vault is unlocked with the key derived from the password and that salt
  (Argon2 returning a key for a 16-byte salt).
\<close>

theorem initialize_vault_only_when_uninitialized:
  "(\<forall>s. config_salt (db w) = Some s \<and> s \<noteq> [] \<longrightarrow>
       initialize_vault P password w = (Inl (HTTPException 400 Vault_already_initialized), w))
   \<and> (config_salt (db w) = None \<and> kdf_total P \<longrightarrow>
       (\<exists>w' salt h key.
          initialize_vault P password w = (Inr Vault_initialized_and_unlocked, w')
          \<and> salt = fst (urandom 16 (os_random w)) \<and> length salt = 16
          \<and> config_salt (db w') = Some salt \<and> config_password_hash (db w') = Some h
          \<and> h = ph_hash P (fst (urandom 16 (snd (urandom 16 (os_random w))))) password
          \<and> derive_key P password salt = Inr key \<and> master_key (crypto w') = Some key
          \<and> is_unlocked (crypto w')
          \<and> passwords (db w') = passwords (db w) \<and> attachments (db w') = attachments (db w)))"
proof (intro conjI allI impI)
  fix s assume "config_salt (db w) = Some s \<and> s \<noteq> []"
  then show "initialize_vault P password w =
      (Inl (HTTPException 400 Vault_already_initialized), w)"
    by (simp add: initialize_vault_def get_master_config_def truthy_def)
next
  assume a: "config_salt (db w) = None \<and> kdf_total P"
  define salt where "salt = fst (urandom 16 (os_random w))"
  have len: "length salt = 16"
    by (simp add: salt_def length_urandom)
  with a obtain key where key: "derive_key P password salt = Inr key"
    unfolding kdf_total_def derive_key_def by blast
  show "\<exists>w' salt h key.
          initialize_vault P password w = (Inr Vault_initialized_and_unlocked, w')
          \<and> salt = fst (urandom 16 (os_random w)) \<and> length salt = 16
          \<and> config_salt (db w') = Some salt \<and> config_password_hash (db w') = Some h
          \<and> h = ph_hash P (fst (urandom 16 (snd (urandom 16 (os_random w))))) password
          \<and> derive_key P password salt = Inr key \<and> master_key (crypto w') = Some key
          \<and> is_unlocked (crypto w')
          \<and> passwords (db w') = passwords (db w) \<and> attachments (db w') = attachments (db w)"
    using a key len unfolding salt_def
    by (simp add: initialize_vault_def get_master_config_def truthy_def generate_salt_def
        set_master_config_def unlock_def is_unlocked_def Let_def split_beta)
qed

theorem initialize_vault_only_when_uninitialized_witness:
  "config_salt (db example_world) = Some example_salt \<and> example_salt \<noteq> []
   \<and> initialize_vault example_prims ''Other'' example_world =
        (Inl (HTTPException 400 Vault_already_initialized), example_world)
   \<and> config_salt (db fresh_world) = None \<and> kdf_total example_prims
   \<and> fst (initialize_vault example_prims ''Secret1'' fresh_world) =
        Inr Vault_initialized_and_unlocked
   \<and> config_salt (db (snd (initialize_vault example_prims ''Secret1'' fresh_world))) =
        Some example_salt
   \<and> is_unlocked (crypto (snd (initialize_vault example_prims ''Secret1'' fresh_world)))"
proof -
  have s: "config_salt (db example_world) = Some example_salt \<and> example_salt \<noteq> []"
    by (simp add: example_world_def example_salt_def)
  have n: "config_salt (db fresh_world) = None \<and> kdf_total example_prims"
    by (simp add: fresh_world_def empty_database_def example_kdf_total)
  have r: "fst (urandom 16 (os_random fresh_world)) = example_salt"
    by (simp add: urandom_def fresh_world_def example_salt_def upt_rec)
  from initialize_vault_only_when_uninitialized [of example_world example_prims "''Other''"] s
  have 1: "initialize_vault example_prims ''Other'' example_world =
        (Inl (HTTPException 400 Vault_already_initialized), example_world)"
    by blast
  from initialize_vault_only_when_uninitialized [of fresh_world example_prims "''Secret1''"] n r
  obtain w' where "initialize_vault example_prims ''Secret1'' fresh_world =
        (Inr Vault_initialized_and_unlocked, w')"
      and "config_salt (db w') = Some example_salt" and "is_unlocked (crypto w')"
    by auto
  then have 2:
    "fst (initialize_vault example_prims ''Secret1'' fresh_world) =
        Inr Vault_initialized_and_unlocked
     \<and> config_salt (db (snd (initialize_vault example_prims ''Secret1'' fresh_world))) =
        Some example_salt
     \<and> is_unlocked (crypto (snd (initialize_vault example_prims ''Secret1'' fresh_world)))"
    by simp
  from s n 1 2 show ?thesis by blast
qed

section \<open>Listing\<close>

lemma list_loop_eq:
  "list_loop P c rows results out =
     (results @ List.map_filter
        (\<lambda>row. case decrypt P c (pw_nonce row) (pw_encrypted_data row) of
                  Inr pt \<Rightarrow> Some \<lparr>resp_id = pw_id row, resp_service = pw_service row,
                                   resp_username = pw_username row, resp_password = pt\<rparr>
                | Inl e \<Rightarrow> None) rows,
      out @ List.map_filter
        (\<lambda>row. case decrypt P c (pw_nonce row) (pw_encrypted_data row) of
                  Inr pt \<Rightarrow> None
                | Inl e \<Rightarrow> Some (Failed_to_decrypt_ID (pw_id row) e)) rows)"
  by (induction rows arbitrary: results out) (auto simp: List.map_filter_simps split: sum.splits)

lemma example_decrypt_row:
  "decrypt example_prims \<lparr>master_key = Some example_key\<rparr>
     (pw_nonce example_row) (pw_encrypted_data example_row) = Inr ''hunter2''"
  using example_codec_round_trip
  by (simp add: decrypt_def decrypt_bytes_def AESGCM_def example_row_def example_key_length
      codec_round_trip_def example_prims_def example_key_def)

lemma corrupt_decrypt_row:
  "decrypt example_prims \<lparr>master_key = Some example_key\<rparr>
     (pw_nonce corrupt_row) (pw_encrypted_data corrupt_row) = Inl InvalidTag"
  by (simp add: decrypt_def decrypt_bytes_def AESGCM_def corrupt_row_def example_key_length
      example_prims_def example_key_def)

text \<open>
  Claim C7 (listing tolerates per-record decryption failure). In the unlocked state
  \<^verbatim>\<open>list_passwords\<close> succeeds. Its answer is, in the order of the table, one entry
  for every stored row that decrypts, carrying the row's id, service, user name and
  the decrypted password; a row that fails to decrypt gives no entry and instead one
  printed line with that row's id and the error. Nothing but the printed output
  changes.
\<close>

theorem list_passwords_skips_and_reports:
  assumes "is_unlocked (crypto w)"
  shows "list_passwords P w =
     (Inr (List.map_filter
        (\<lambda>row. case decrypt P (crypto w) (pw_nonce row) (pw_encrypted_data row) of
                  Inr pt \<Rightarrow> Some \<lparr>resp_id = pw_id row, resp_service = pw_service row,
                                   resp_username = pw_username row, resp_password = pt\<rparr>
                | Inl e \<Rightarrow> None) (passwords (db w))),
      w\<lparr>stdout := stdout w @ List.map_filter
        (\<lambda>row. case decrypt P (crypto w) (pw_nonce row) (pw_encrypted_data row) of
                  Inr pt \<Rightarrow> None
                | Inl e \<Rightarrow> Some (Failed_to_decrypt_ID (pw_id row) e)) (passwords (db w))\<rparr>)"
  using assms by (simp add: list_passwords_def get_crypto_def get_passwords_def list_loop_eq)

theorem list_passwords_skips_and_reports_witness:
  "is_unlocked (crypto corrupt_world)
   \<and> fst (list_passwords example_prims corrupt_world) =
       Inr [\<lparr>resp_id = 1, resp_service = ''email'', resp_username = ''a@x.com'',
             resp_password = ''hunter2''\<rparr>]
   \<and> stdout (snd (list_passwords example_prims corrupt_world)) =
       [Failed_to_decrypt_ID 2 InvalidTag]"
proof -
  have u: "is_unlocked (crypto corrupt_world)"
    by (simp add: corrupt_world_def example_world_def is_unlocked_def)
  have c: "crypto corrupt_world = \<lparr>master_key = Some example_key\<rparr>"
    by (simp add: corrupt_world_def example_world_def)
  have p: "passwords (db corrupt_world) = [example_row, corrupt_row]"
    by (simp add: corrupt_world_def)
  have o: "stdout corrupt_world = []"
    by (simp add: corrupt_world_def example_world_def)
  have i: "pw_id example_row = 1 \<and> pw_service example_row = ''email''
    \<and> pw_username example_row = ''a@x.com'' \<and> pw_id corrupt_row = 2"
    by (simp add: example_row_def corrupt_row_def)
  show ?thesis
    using list_passwords_skips_and_reports [OF u, of example_prims] u
    by (simp add: c p o i List.map_filter_simps example_decrypt_row corrupt_decrypt_row)
qed

section \<open>Changing the master password\<close>

lemma decrypt_loop_first_failure:
  "find (fails_to_decrypt P c) rows = Some r0 \<Longrightarrow>
   decrypt_loop P c rows acc =
     Inl (HTTPException 500 (Failed_to_decrypt_password_ID_Aborting_rotation (pw_id r0)))"
  by (induction rows arbitrary: acc)
    (auto simp: fails_to_decrypt_def split: sum.splits if_splits)

lemma find_failing_row:
  "row \<in> set rows \<Longrightarrow> fails_to_decrypt P c row \<Longrightarrow>
   \<exists>r0. find (fails_to_decrypt P c) rows = Some r0"
  by (cases "find (fails_to_decrypt P c) rows") (auto simp: find_None_iff)

text \<open>
  Claim C1 (rotation atomicity). In the unlocked state, if some stored password fails
  to decrypt under the current key, \<^verbatim>\<open>change_master_password\<close> fails and the whole
  state is exactly what it was: every stored record, the configuration and the key in
  use. Once the current password has passed the verifier the failure is the 500
  "Failed to decrypt password ID ... Aborting rotation" naming the first stored row
  that does not decrypt. Unlocking behaves after the attempt as before it, for
  every password.
\<close>

theorem rotation_aborts_without_change:
  assumes "is_unlocked (crypto w)"
    and "row \<in> set (passwords (db w))"
    and "decrypt P (crypto w) (pw_nonce row) (pw_encrypted_data row) = Inl e"
  shows "snd (change_master_password P req w) = w
       \<and> (\<exists>f. fst (change_master_password P req w) = Inl f)
       \<and> (verify P (config_password_hash (db w)) (current_password req) \<longrightarrow>
            (\<exists>r0. find (fails_to_decrypt P (crypto w)) (passwords (db w)) = Some r0
               \<and> fst (change_master_password P req w) =
                   Inl (HTTPException 500
                          (Failed_to_decrypt_password_ID_Aborting_rotation (pw_id r0)))))
       \<and> (\<forall>password. unlock_vault P password (snd (change_master_password P req w)) =
                       unlock_vault P password w)"
proof -
  from assms(2,3) obtain r0
    where r0: "find (fails_to_decrypt P (crypto w)) (passwords (db w)) = Some r0"
    using find_failing_row [of row "passwords (db w)" P "crypto w"]
    by (auto simp: fails_to_decrypt_def)
  note loop = decrypt_loop_first_failure [OF r0, of "[]"]
  have same: "snd (change_master_password P req w) = w"
    using assms(1) loop
    by (simp add: change_master_password_def get_crypto_def get_passwords_def)
  have err: "\<exists>f. fst (change_master_password P req w) = Inl f"
    using assms(1) loop
    by (simp add: change_master_password_def get_crypto_def get_passwords_def)
  have abort: "verify P (config_password_hash (db w)) (current_password req) \<Longrightarrow>
      fst (change_master_password P req w) =
        Inl (HTTPException 500 (Failed_to_decrypt_password_ID_Aborting_rotation (pw_id r0)))"
    using assms(1) loop
    by (simp add: change_master_password_def get_crypto_def get_passwords_def
        get_master_config_def)
  from same err abort r0 show ?thesis by simp
qed

theorem rotation_aborts_without_change_witness:
  "is_unlocked (crypto corrupt_world)
   \<and> corrupt_row \<in> set (passwords (db corrupt_world))
   \<and> decrypt example_prims (crypto corrupt_world) (pw_nonce corrupt_row)
        (pw_encrypted_data corrupt_row) = Inl InvalidTag
   \<and> change_master_password example_prims
        \<lparr>current_password = ''Secret1'', new_password = ''Secret2''\<rparr> corrupt_world =
       (Inl (HTTPException 500 (Failed_to_decrypt_password_ID_Aborting_rotation 2)),
        corrupt_world)
   \<and> fst (unlock_vault example_prims ''Secret1''
        (snd (change_master_password example_prims
           \<lparr>current_password = ''Secret1'', new_password = ''Secret2''\<rparr> corrupt_world)))
       = Inr Vault_unlocked"
proof -
  let ?req = "\<lparr>current_password = ''Secret1'', new_password = ''Secret2''\<rparr>"
  have c: "crypto corrupt_world = \<lparr>master_key = Some example_key\<rparr>"
    by (simp add: corrupt_world_def example_world_def)
  have u: "is_unlocked (crypto corrupt_world)"
    by (simp add: c is_unlocked_def)
  have p: "passwords (db corrupt_world) = [example_row, corrupt_row]"
    by (simp add: corrupt_world_def)
  have m: "corrupt_row \<in> set (passwords (db corrupt_world))"
    by (simp add: p)
  have d: "decrypt example_prims (crypto corrupt_world) (pw_nonce corrupt_row)
        (pw_encrypted_data corrupt_row) = Inl InvalidTag"
    by (simp add: c corrupt_decrypt_row)
  have v: "verify example_prims (config_password_hash (db corrupt_world))
      (current_password ?req)"
    by (simp add: verify_def corrupt_world_def example_world_def example_ph_verify)
  have f: "find (fails_to_decrypt example_prims (crypto corrupt_world))
      (passwords (db corrupt_world)) = Some corrupt_row"
    by (simp add: p c fails_to_decrypt_def example_decrypt_row corrupt_decrypt_row)
  have i: "pw_id corrupt_row = 2"
    by (simp add: corrupt_row_def)
  have k: "unlock_vault example_prims ''Secret1'' corrupt_world
      = (Inr Vault_unlocked, corrupt_world)"
    by (simp add: unlock_vault_def get_master_config_def truthy_def verify_def unlock_def
        corrupt_world_def example_world_def example_derive_key example_salt_nonempty
        example_ph_verify)
  from rotation_aborts_without_change [OF u m d, of ?req] v f i k
  show ?thesis using u m d
    by (simp add: prod_eq_iff)
qed

lemma encrypt_then_decrypt:
  assumes "aead_round_trip P" and "codec_round_trip P"
    and "encrypt P c s r = (Inr enc, r')"
  shows "decrypt P c (nonce enc) (ciphertext enc) = Inr s"
  using assms
  by (auto simp: encrypt_def encrypt_bytes_def decrypt_def decrypt_bytes_def AESGCM_def
      aead_round_trip_def codec_round_trip_def urandom_def
      split: option.splits if_splits prod.splits)

lemma decrypt_loop_Inr:
  "decrypt_loop P c rows acc = Inr des \<Longrightarrow>
   \<exists>ds. des = acc @ ds
      \<and> list_all2 (\<lambda>row d. de_id d = pw_id row
            \<and> decrypt P c (pw_nonce row) (pw_encrypted_data row) = Inr (de_plaintext d)) rows ds"
proof (induction rows arbitrary: acc)
  case Nil
  then show ?case by simp
next
  case (Cons row rows)
  from Cons.prems obtain pt
    where pt: "decrypt P c (pw_nonce row) (pw_encrypted_data row) = Inr pt"
      and rest: "decrypt_loop P c rows (acc @ [\<lparr>de_id = pw_id row, de_plaintext = pt\<rparr>]) = Inr des"
    by (auto split: sum.splits)
  from Cons.IH [OF rest] obtain ds
    where "des = (acc @ [\<lparr>de_id = pw_id row, de_plaintext = pt\<rparr>]) @ ds"
      and "list_all2 (\<lambda>row d. de_id d = pw_id row
            \<and> decrypt P c (pw_nonce row) (pw_encrypted_data row) = Inr (de_plaintext d)) rows ds"
    by blast
  with pt show ?case
    by (intro exI [of _ "\<lparr>de_id = pw_id row, de_plaintext = pt\<rparr> # ds"]) simp
qed

lemma re_encrypt_loop_Inr:
  assumes "aead_round_trip P" and "codec_round_trip P"
  shows "re_encrypt_loop P tc des acc r = (Inr ues, r') \<Longrightarrow>
   \<exists>us. ues = acc @ us
      \<and> list_all2 (\<lambda>d u. ue_id u = de_id d
            \<and> decrypt P tc (ue_nonce u) (ue_encrypted_data u) = Inr (de_plaintext d)) des us"
proof (induction des arbitrary: acc r)
  case Nil
  then show ?case by simp
next
  case (Cons d des)
  let ?u = "\<lambda>enc. \<lparr>ue_id = de_id d, ue_encrypted_data = ciphertext enc, ue_nonce = nonce enc\<rparr>"
  from Cons.prems obtain enc r1
    where enc: "encrypt P tc (de_plaintext d) r = (Inr enc, r1)"
      and rest: "re_encrypt_loop P tc des (acc @ [?u enc]) r1 = (Inr ues, r')"
    by (auto split: sum.splits prod.splits)
  from Cons.IH [OF rest] obtain us
    where "ues = (acc @ [?u enc]) @ us"
      and "list_all2 (\<lambda>d u. ue_id u = de_id d
            \<and> decrypt P tc (ue_nonce u) (ue_encrypted_data u) = Inr (de_plaintext d)) des us"
    by blast
  with encrypt_then_decrypt [OF assms enc] show ?case
    by (intro exI [of _ "?u enc # us"]) simp
qed

lemma execute_all_Inr:
  "execute_all fault stmts d = Inr d' \<Longrightarrow> d' = fold (\<lambda>stmt. stmt) stmts d"
  by (induction stmts arbitrary: fault d) (auto split: if_splits)

lemma execute_all_no_fault: "execute_all None stmts d = Inr (fold (\<lambda>stmt. stmt) stmts d)"
  by (induction stmts arbitrary: d) auto

lemma fold_update_data:
  "list_all2 (\<lambda>row u. ue_id u = pw_id row) rows us \<Longrightarrow>
   distinct (map pw_id (pre @ rows)) \<Longrightarrow> passwords d = pre @ rows \<Longrightarrow>
   fold update_data us d = d\<lparr>passwords := pre @ map2 re_keyed rows us\<rparr>"
proof (induction rows us arbitrary: pre d rule: list_all2_induct)
  case Nil
  then show ?case by simp
next
  case (Cons row rows u us)
  have pre: "map (\<lambda>r. if pw_id r = ue_id u
                     then r\<lparr>pw_encrypted_data := ue_encrypted_data u, pw_nonce := ue_nonce u\<rparr>
                     else r) pre = pre"
    using Cons.prems(1) Cons.hyps(1) by (intro map_idI) (force simp: image_iff)
  have post: "map (\<lambda>r. if pw_id r = ue_id u
                     then r\<lparr>pw_encrypted_data := ue_encrypted_data u, pw_nonce := ue_nonce u\<rparr>
                     else r) rows = rows"
    using Cons.prems(1) Cons.hyps(1) by (intro map_idI) (force simp: image_iff)
  have step: "passwords (update_data u d) = (pre @ [re_keyed row u]) @ rows"
    using Cons.prems(2) Cons.hyps(1) pre post by (simp add: update_data_def re_keyed_def)
  have dist: "distinct (map pw_id ((pre @ [re_keyed row u]) @ rows))"
    using Cons.prems(1) by (simp add: re_keyed_def)
  from Cons.IH [OF dist step] show ?case
    by (simp add: update_data_def)
qed

lemma rotate_to_new_key_Inr:
  assumes "rotate_to_new_key P req des w = (Inr m, w')"
  shows "\<exists>key ues.
      derive_key P (new_password req) (fst (urandom 16 (os_random w))) = Inr key
    \<and> fst (re_encrypt_loop P \<lparr>master_key = Some key\<rparr> des []
          (snd (urandom 16 (snd (urandom 16 (os_random w)))))) = Inr ues
    \<and> db w' = (fold update_data ues (db w))
         \<lparr>config_salt := Some (fst (urandom 16 (os_random w))),
          config_password_hash :=
            Some (ph_hash P (fst (urandom 16 (snd (urandom 16 (os_random w)))))
                    (new_password req))\<rparr>
    \<and> crypto w' = (crypto w)\<lparr>master_key := Some key\<rparr>
    \<and> m = Master_password_changed_successfully"
  using assms
  apply (simp add: rotate_to_new_key_def generate_salt_def Let_def split_beta unlock_def
      CryptoManager_init_def batch_update_passwords_and_config_def create_snapshot_def
      split: sum.splits if_splits prod.splits)
  apply (auto dest!: execute_all_Inr
      simp: replace_salt_def replace_password_hash_def fold_map comp_def)
  done

lemma change_master_password_Inr:
  assumes "change_master_password P req w = (Inr m, w')"
  shows "\<exists>des. is_unlocked (crypto w)
     \<and> verify P (config_password_hash (db w)) (current_password req)
     \<and> decrypt_loop P (crypto w) (passwords (db w)) [] = Inr des
     \<and> rotate_to_new_key P req des w = (Inr m, w')"
  using assms
  by (auto simp: change_master_password_def get_crypto_def get_passwords_def
      get_master_config_def split: sum.splits if_splits)

lemma fold_update_data_other:
  "config_salt (fold update_data ues d) = config_salt d
   \<and> config_password_hash (fold update_data ues d) = config_password_hash d
   \<and> attachments (fold update_data ues d) = attachments d
   \<and> attachments_seq (fold update_data ues d) = attachments_seq d
   \<and> passwords_seq (fold update_data ues d) = passwords_seq d"
  by (induction ues arbitrary: d) (simp_all add: update_data_def)

text \<open>What a successful rotation leaves in the configuration, the key and the attachments.\<close>

lemma rotation_config:
  assumes "change_master_password P req w = (Inr m, w')"
  shows "\<exists>key.
      derive_key P (new_password req) (fst (urandom 16 (os_random w))) = Inr key
    \<and> crypto w' = (crypto w)\<lparr>master_key := Some key\<rparr>
    \<and> config_salt (db w') = Some (fst (urandom 16 (os_random w)))
    \<and> config_password_hash (db w') =
        Some (ph_hash P (fst (urandom 16 (snd (urandom 16 (os_random w)))))
                (new_password req))
    \<and> attachments (db w') = attachments (db w)
    \<and> m = Master_password_changed_successfully"
proof -
  from change_master_password_Inr [OF assms] obtain des
    where "rotate_to_new_key P req des w = (Inr m, w')"
    by blast
  from rotate_to_new_key_Inr [OF this] show ?thesis
    by (auto simp: fold_update_data_other)
qed

lemma list_all2_trans_rows:
  assumes "list_all2 (\<lambda>row d. de_id d = pw_id row
      \<and> decrypt P c (pw_nonce row) (pw_encrypted_data row) = Inr (de_plaintext d)) rows ds"
    and "list_all2 (\<lambda>d u. ue_id u = de_id d
      \<and> decrypt P tc (ue_nonce u) (ue_encrypted_data u) = Inr (de_plaintext d)) ds us"
  shows "list_all2 (\<lambda>row u. ue_id u = pw_id row
      \<and> (\<exists>pt. decrypt P c (pw_nonce row) (pw_encrypted_data row) = Inr pt
           \<and> decrypt P tc (ue_nonce u) (ue_encrypted_data u) = Inr pt)) rows us"
  using assms
  by (auto simp: list_all2_conv_all_nth)

text \<open>What a successful rotation leaves in the table of passwords.\<close>

lemma rotation_rows:
  assumes "aead_round_trip P" and "codec_round_trip P"
    and "distinct (map pw_id (passwords (db w)))"
    and "change_master_password P req w = (Inr m, w')"
    and "derive_key P (new_password req) (fst (urandom 16 (os_random w))) = Inr key"
  shows "list_all2 (\<lambda>row row'.
          pw_id row' = pw_id row \<and> pw_service row' = pw_service row
        \<and> pw_username row' = pw_username row
        \<and> (\<exists>pt. decrypt P (crypto w) (pw_nonce row) (pw_encrypted_data row) = Inr pt
             \<and> decrypt P \<lparr>master_key = Some key\<rparr> (pw_nonce row') (pw_encrypted_data row')
                  = Inr pt))
        (passwords (db w)) (passwords (db w'))"
proof -
  let ?rows = "passwords (db w)"
  from change_master_password_Inr [OF assms(4)] obtain des
    where des: "decrypt_loop P (crypto w) ?rows [] = Inr des"
      and rot: "rotate_to_new_key P req des w = (Inr m, w')"
    by blast
  from rotate_to_new_key_Inr [OF rot] assms(5) obtain ues
    where ues: "fst (re_encrypt_loop P \<lparr>master_key = Some key\<rparr> des []
          (snd (urandom 16 (snd (urandom 16 (os_random w)))))) = Inr ues"
      and db': "passwords (db w') = passwords (fold update_data ues (db w))"
    by auto
  from decrypt_loop_Inr [OF des]
  have a: "list_all2 (\<lambda>row d. de_id d = pw_id row
        \<and> decrypt P (crypto w) (pw_nonce row) (pw_encrypted_data row) = Inr (de_plaintext d))
        ?rows des"
    by simp
  from ues obtain r3
    where "re_encrypt_loop P \<lparr>master_key = Some key\<rparr> des []
          (snd (urandom 16 (snd (urandom 16 (os_random w))))) = (Inr ues, r3)"
    by (metis prod.collapse)
  from re_encrypt_loop_Inr [OF assms(1,2) this]
  have b: "list_all2 (\<lambda>d u. ue_id u = de_id d
        \<and> decrypt P \<lparr>master_key = Some key\<rparr> (ue_nonce u) (ue_encrypted_data u)
            = Inr (de_plaintext d)) des ues"
    by simp
  from list_all2_trans_rows [OF a b]
  have c: "list_all2 (\<lambda>row u. ue_id u = pw_id row
      \<and> (\<exists>pt. decrypt P (crypto w) (pw_nonce row) (pw_encrypted_data row) = Inr pt
           \<and> decrypt P \<lparr>master_key = Some key\<rparr> (ue_nonce u) (ue_encrypted_data u) = Inr pt))
      ?rows ues" .
  then have ids: "list_all2 (\<lambda>row u. ue_id u = pw_id row) ?rows ues"
    by (rule list_all2_mono) simp
  from fold_update_data [OF ids, of "[]" "db w"] assms(3)
  have upd: "fold update_data ues (db w) = (db w)\<lparr>passwords := map2 re_keyed ?rows ues\<rparr>"
    by simp
  have rows': "passwords (db w') = map2 re_keyed ?rows ues"
    by (simp add: db' upd)
  have len: "length ues = length ?rows"
    using ids by (simp add: list_all2_lengthD)
  show ?thesis
    unfolding rows' using c len
    by (auto simp: list_all2_conv_all_nth re_keyed_def)
qed

text \<open>Unlocking any state that holds the configuration a rotation has written.\<close>

lemma unlock_after_rotation:
  assumes "verifier_exact P"
    and "change_master_password P req w = (Inr m, w')"
    and "db v = db w'"
  shows "fst (unlock_vault P (new_password req) v) = Inr Vault_unlocked"
    and "password \<noteq> new_password req \<Longrightarrow>
      unlock_vault P password v = (Inl (HTTPException 401 Invalid_password), v)"
proof -
  from rotation_config [OF assms(2)] obtain key
    where key: "derive_key P (new_password req) (fst (urandom 16 (os_random w))) = Inr key"
      and salt: "config_salt (db v) = Some (fst (urandom 16 (os_random w)))"
      and hash: "config_password_hash (db v) =
        Some (ph_hash P (fst (urandom 16 (snd (urandom 16 (os_random w)))))
                (new_password req))"
    using assms(3) by auto
  have salt_ne: "fst (urandom 16 (os_random w)) \<noteq> []"
    using length_urandom [of 16 "os_random w"] by auto
  show "fst (unlock_vault P (new_password req) v) = Inr Vault_unlocked"
    using assms(1) salt hash salt_ne key
    by (simp add: unlock_vault_def get_master_config_def truthy_def verify_def
        verifier_exact_def unlock_def)
  show "password \<noteq> new_password req \<Longrightarrow>
      unlock_vault P password v = (Inl (HTTPException 401 Invalid_password), v)"
    using assms(1) salt hash salt_ne
    by (auto simp add: unlock_vault_def get_master_config_def truthy_def verify_def
        verifier_exact_def)
qed

text \<open>
  Claim C2 (rotation completeness), as amended: after a successful
  \<^verbatim>\<open>change_master_password\<close> the configuration holds a new salt, the manager holds the
  key derived from the new password and that salt, and the table holds the same rows
  (id, service, user name), each decrypting under the new key to exactly the plaintext
  it decrypted to under the old key before. Unlocking with the new password succeeds,
  right away and after a lock; unlocking with the old password fails with 401
  provided the new password differs from the old one. Used of the libraries:
  the round trips of AES-GCM and of the codec, and the verifier accepting exactly the
  password it was made from. Used of the database: row ids are distinct (the primary
  key).
\<close>

theorem rotation_re_keys_every_password:
  assumes "aead_round_trip P" and "codec_round_trip P" and "verifier_exact P"
    and "distinct (map pw_id (passwords (db w)))"
    and "change_master_password P req w = (Inr m, w')"
  shows "\<exists>new_salt key.
      config_salt (db w') = Some new_salt
    \<and> derive_key P (new_password req) new_salt = Inr key
    \<and> master_key (crypto w') = Some key
    \<and> list_all2 (\<lambda>row row'.
          pw_id row' = pw_id row \<and> pw_service row' = pw_service row
        \<and> pw_username row' = pw_username row
        \<and> (\<exists>pt. decrypt P (crypto w) (pw_nonce row) (pw_encrypted_data row) = Inr pt
             \<and> decrypt P \<lparr>master_key = Some key\<rparr> (pw_nonce row') (pw_encrypted_data row')
                  = Inr pt))
        (passwords (db w)) (passwords (db w'))
    \<and> (new_password req \<noteq> current_password req \<longrightarrow>
          unlock_vault P (current_password req) w' =
            (Inl (HTTPException 401 Invalid_password), w')
        \<and> unlock_vault P (current_password req) (snd (lock_vault w')) =
            (Inl (HTTPException 401 Invalid_password), snd (lock_vault w')))
    \<and> fst (unlock_vault P (new_password req) w') = Inr Vault_unlocked
    \<and> fst (unlock_vault P (new_password req) (snd (lock_vault w'))) = Inr Vault_unlocked"
proof -
  from rotation_config [OF assms(5)] obtain key
    where key: "derive_key P (new_password req) (fst (urandom 16 (os_random w))) = Inr key"
      and crypto': "crypto w' = (crypto w)\<lparr>master_key := Some key\<rparr>"
      and salt': "config_salt (db w') = Some (fst (urandom 16 (os_random w)))"
    by blast
  note rows = rotation_rows [OF assms(1,2,4,5) key]
  have l: "db (snd (lock_vault w')) = db w'"
    by (simp add: lock_vault_def)
  note u1 = unlock_after_rotation [OF assms(3,5) refl]
  note u2 = unlock_after_rotation [OF assms(3,5) l]
  from salt' key crypto' rows u1 u2 show ?thesis
    by (intro exI [of _ "fst (urandom 16 (os_random w))"] exI [of _ key]) simp
qed

lemma decrypt_loop_succeeds:
  "\<forall>row\<in>set rows. \<not> fails_to_decrypt P c row \<Longrightarrow> \<exists>des. decrypt_loop P c rows acc = Inr des"
  by (induction rows arbitrary: acc) (auto simp: fails_to_decrypt_def split: sum.splits)

lemma re_encrypt_loop_succeeds:
  "length key = 32 \<Longrightarrow>
   \<exists>ues. fst (re_encrypt_loop P \<lparr>master_key = Some key\<rparr> des acc r) = Inr ues"
  by (induction des arbitrary: acc r)
    (auto simp: encrypt_def encrypt_bytes_def AESGCM_def split_beta)

lemma rotate_to_new_key_succeeds:
  assumes "kdf_total P" and "db_fault w = None"
  shows "fst (rotate_to_new_key P req des w) = Inr Master_password_changed_successfully"
proof -
  have "length (fst (urandom 16 (os_random w))) = 16"
    by (rule length_urandom)
  with assms(1) obtain key
    where key: "derive_key P (new_password req) (fst (urandom 16 (os_random w))) = Inr key"
      and len: "length key = 32"
    unfolding kdf_total_def derive_key_def by blast
  from re_encrypt_loop_succeeds [OF len] obtain ues
    where "fst (re_encrypt_loop P \<lparr>master_key = Some key\<rparr> des []
          (snd (urandom 16 (snd (urandom 16 (os_random w)))))) = Inr ues"
    by blast
  with key assms(2) show ?thesis
    by (simp add: rotate_to_new_key_def generate_salt_def Let_def split_beta unlock_def
      CryptoManager_init_def batch_update_passwords_and_config_def create_snapshot_def
      execute_all_no_fault split: sum.splits prod.splits)
qed

text \<open>When the rotation goes through.\<close>

lemma change_master_password_succeeds:
  assumes "is_unlocked (crypto w)"
    and "verify P (config_password_hash (db w)) (current_password req)"
    and "\<forall>row\<in>set (passwords (db w)). \<not> fails_to_decrypt P (crypto w) row"
    and "kdf_total P" and "db_fault w = None"
  shows "fst (change_master_password P req w) = Inr Master_password_changed_successfully"
proof -
  from decrypt_loop_succeeds [OF assms(3)] obtain des
    where "decrypt_loop P (crypto w) (passwords (db w)) [] = Inr des"
    by blast
  with assms(1,2) rotate_to_new_key_succeeds [OF assms(4,5)] show ?thesis
    by (simp add: change_master_password_def get_crypto_def get_passwords_def
        get_master_config_def)
qed

lemma example_rotation_succeeds:
  "change_master_password example_prims \<lparr>current_password = ''Secret1'', new_password = new\<rparr>
      example_world =
   (Inr Master_password_changed_successfully,
    snd (change_master_password example_prims
           \<lparr>current_password = ''Secret1'', new_password = new\<rparr> example_world))"
proof -
  have "fst (change_master_password example_prims
      \<lparr>current_password = ''Secret1'', new_password = new\<rparr> example_world)
      = Inr Master_password_changed_successfully"
    by (rule change_master_password_succeeds)
      (simp_all add: example_world_def is_unlocked_def verify_def example_ph_verify
        fails_to_decrypt_def example_decrypt_row example_kdf_total)
  then show ?thesis
    by (simp add: prod_eq_iff)
qed

text \<open>
  Without the proviso the claim fails: nothing stops a rotation to the password
  already in use. It succeeds, and the old password, being the new one, still unlocks.
\<close>

theorem rotation_to_same_password_counterexample:
  "fst (change_master_password example_prims
          \<lparr>current_password = ''Secret1'', new_password = ''Secret1''\<rparr> example_world)
     = Inr Master_password_changed_successfully
   \<and> fst (unlock_vault example_prims ''Secret1''
        (snd (lock_vault (snd (change_master_password example_prims
          \<lparr>current_password = ''Secret1'', new_password = ''Secret1''\<rparr> example_world)))))
     = Inr Vault_unlocked"
proof -
  let ?req = "\<lparr>current_password = ''Secret1'', new_password = ''Secret1''\<rparr>"
  let ?w' = "snd (change_master_password example_prims ?req example_world)"
  have l: "db (snd (lock_vault ?w')) = db ?w'"
    by (simp add: lock_vault_def)
  from unlock_after_rotation(1) [OF example_verifier_exact example_rotation_succeeds l]
    example_rotation_succeeds [of "''Secret1''"]
  show ?thesis
    by (simp add: prod_eq_iff)
qed

theorem rotation_re_keys_every_password_witness:
  "aead_round_trip example_prims \<and> codec_round_trip example_prims
   \<and> verifier_exact example_prims
   \<and> distinct (map pw_id (passwords (db example_world)))
   \<and> change_master_password example_prims
        \<lparr>current_password = ''Secret1'', new_password = ''Secret2''\<rparr> example_world
      = (Inr Master_password_changed_successfully,
         snd (change_master_password example_prims
           \<lparr>current_password = ''Secret1'', new_password = ''Secret2''\<rparr> example_world))
   \<and> ''Secret2'' \<noteq> ''Secret1''
   \<and> fst (unlock_vault example_prims ''Secret1''
        (snd (lock_vault (snd (change_master_password example_prims
          \<lparr>current_password = ''Secret1'', new_password = ''Secret2''\<rparr> example_world)))))
      = Inl (HTTPException 401 Invalid_password)
   \<and> fst (unlock_vault example_prims ''Secret2''
        (snd (lock_vault (snd (change_master_password example_prims
          \<lparr>current_password = ''Secret1'', new_password = ''Secret2''\<rparr> example_world)))))
      = Inr Vault_unlocked
   \<and> (\<exists>new_salt key.
        config_salt (db (snd (change_master_password example_prims
          \<lparr>current_password = ''Secret1'', new_password = ''Secret2''\<rparr> example_world)))
          = Some new_salt
      \<and> derive_key example_prims ''Secret2'' new_salt = Inr key
      \<and> list_all2 (\<lambda>row row'.
            pw_id row' = pw_id row \<and> pw_service row' = pw_service row
          \<and> pw_username row' = pw_username row
          \<and> (\<exists>pt. decrypt example_prims (crypto example_world) (pw_nonce row)
                      (pw_encrypted_data row) = Inr pt
               \<and> decrypt example_prims \<lparr>master_key = Some key\<rparr> (pw_nonce row')
                      (pw_encrypted_data row') = Inr pt))
          (passwords (db example_world))
          (passwords (db (snd (change_master_password example_prims
             \<lparr>current_password = ''Secret1'', new_password = ''Secret2''\<rparr> example_world)))))"
proof -
  let ?req = "\<lparr>current_password = ''Secret1'', new_password = ''Secret2''\<rparr>"
  have d: "distinct (map pw_id (passwords (db example_world)))"
    by (simp add: example_world_def)
  have ne: "''Secret2'' \<noteq> ''Secret1''"
    by simp
  note ok = example_rotation_succeeds [of "''Secret2''"]
  note inst = rotation_re_keys_every_password [OF example_aead_round_trip
      example_codec_round_trip example_verifier_exact d ok]
  from inst ne have old: "fst (unlock_vault example_prims ''Secret1''
        (snd (lock_vault (snd (change_master_password example_prims ?req example_world)))))
      = Inl (HTTPException 401 Invalid_password)"
    by auto
  from inst have new: "fst (unlock_vault example_prims ''Secret2''
        (snd (lock_vault (snd (change_master_password example_prims ?req example_world)))))
      = Inr Vault_unlocked"
    by auto
  from inst have rows: "\<exists>new_salt key.
        config_salt (db (snd (change_master_password example_prims ?req example_world)))
          = Some new_salt
      \<and> derive_key example_prims ''Secret2'' new_salt = Inr key
      \<and> list_all2 (\<lambda>row row'.
            pw_id row' = pw_id row \<and> pw_service row' = pw_service row
          \<and> pw_username row' = pw_username row
          \<and> (\<exists>pt. decrypt example_prims (crypto example_world) (pw_nonce row)
                      (pw_encrypted_data row) = Inr pt
               \<and> decrypt example_prims \<lparr>master_key = Some key\<rparr> (pw_nonce row')
                      (pw_encrypted_data row') = Inr pt))
          (passwords (db example_world))
          (passwords (db (snd (change_master_password example_prims ?req example_world))))"
    by auto
  from example_aead_round_trip example_codec_round_trip example_verifier_exact d ok ne
    old new rows
  show ?thesis by (intro conjI)
qed

section \<open>Attachments across a rotation\<close>

lemma example_random_salt: "fst (urandom 16 (os_random example_world)) = example_salt"
  by (simp add: urandom_def example_world_def example_salt_def upt_rec)

lemma example_derive_new_key:
  "derive_key example_prims ''Secret2'' example_salt = Inr example_new_key"
  by (simp add: derive_key_def example_prims_def example_encode_def example_salt_def
      example_new_key_def eval_nat_numeral)

lemma example_world_fields:
  "crypto example_world = \<lparr>master_key = Some example_key\<rparr>"
  "attachments (db example_world) = [example_attachment]"
  "passwords (db example_world) = [example_row]"
  by (simp_all add: example_world_def)

text \<open>
  Claim C3 (key epoch of attachments) does not hold of the code:
  \<^verbatim>\<open>change_master_password\<close> re-encrypts the rows of \<^verbatim>\<open>passwords\<close> only
  (\<open>rotation_config\<close>: the table of attachments is the same before and after), while
  \<^verbatim>\<open>download_attachment\<close> decrypts with the key in use. In the example vault the
  attachment downloads as its three bytes before the rotation, the rotation succeeds,
  and afterwards the download fails with 500 "Decryption failed".
\<close>

theorem attachment_unreadable_after_rotation:
  "fst (download_attachment example_prims 1 example_world) = Inr [10, 20, 30]
   \<and> fst (change_master_password example_prims example_rotation example_world) =
       Inr Master_password_changed_successfully
   \<and> fst (download_attachment example_prims 1
        (snd (change_master_password example_prims example_rotation example_world))) =
       Inl (HTTPException 500 (Decryption_failed InvalidTag))"
proof -
  let ?w' = "snd (change_master_password example_prims example_rotation example_world)"
  have before: "fst (download_attachment example_prims 1 example_world) = Inr [10, 20, 30]"
    by (simp add: download_attachment_def get_crypto_def is_unlocked_def get_attachment_def
        example_world_def example_attachment_def decrypt_bytes_def AESGCM_def
        example_key_length)
      (simp add: example_prims_def example_key_def example_nonce_def)
  have ok: "change_master_password example_prims example_rotation example_world =
      (Inr Master_password_changed_successfully, ?w')"
    using example_rotation_succeeds [of "''Secret2''"] by (simp add: example_rotation_def)
  from rotation_config [OF ok]
  have c: "crypto ?w' = \<lparr>master_key = Some example_new_key\<rparr>"
    and a: "attachments (db ?w') = [example_attachment]"
    by (auto simp: example_rotation_def example_random_salt example_derive_new_key
        example_world_fields)
  have after: "fst (download_attachment example_prims 1 ?w') =
       Inl (HTTPException 500 (Decryption_failed InvalidTag))"
    by (simp add: download_attachment_def get_crypto_def is_unlocked_def get_attachment_def
        c a example_attachment_def decrypt_bytes_def AESGCM_def)
      (simp add: example_prims_def example_key_def example_new_key_def example_nonce_def)
  from ok have "fst (change_master_password example_prims example_rotation example_world) =
       Inr Master_password_changed_successfully"
    by (simp add: prod_eq_iff)
  with before after show ?thesis by blast
qed

section \<open>The identifier returned by add\<close>

text \<open>
  Whenever the vault is unlocked with a 32-byte key, \<^verbatim>\<open>add_password\<close> answers with
  id 0 and the row it appends has a positive id.
\<close>

lemma fold_max_ge: "seq \<le> fold max ids (seq :: int)"
proof (induction ids arbitrary: seq)
  case Nil
  then show ?case by simp
next
  case (Cons i ids)
  have "seq \<le> max i seq" by simp
  also have "\<dots> \<le> fold max ids (max i seq)" by (rule Cons.IH)
  finally show ?case by simp
qed

lemma add_password_answers_zero:
  assumes "master_key (crypto w) = Some k" and "length k = 32"
    and "0 \<le> passwords_seq (db w)"
  shows "\<exists>resp row. fst (add_password P entry w) = Inr resp \<and> resp_id resp = 0
     \<and> passwords (db (snd (add_password P entry w))) = passwords (db w) @ [row]
     \<and> 0 < pw_id row"
proof -
  have "0 < next_rowid (passwords_seq (db w)) (map pw_id (passwords (db w)))"
    using fold_max_ge [of "passwords_seq (db w)" "map pw_id (passwords (db w))"] assms(3)
    by (simp add: next_rowid_def)
  with assms(1,2) show ?thesis
    by (auto simp: add_password_def get_crypto_def is_unlocked_def encrypt_def
        encrypt_bytes_def AESGCM_def store_password_def create_snapshot_def
        insert_password_def split_beta Let_def)
qed

text \<open>
  Claim C8 (add returns the real identifier) does not hold of the code:
  \<^verbatim>\<open>add_password\<close> answers with the constant id 0, which the source marks as a
  placeholder, while the row it stored got the next \<^verbatim>\<open>AUTOINCREMENT\<close> id. In the
  example vault, which holds the row 1, the new row is row 2 and the answer says 0.
\<close>

theorem add_password_returns_placeholder_id:
  "fst (add_password example_prims example_entry example_world) =
     Inr \<lparr>resp_id = 0, resp_service = ''bank'', resp_username = ''a'', resp_password = ''pw''\<rparr>
   \<and> map pw_id (passwords (db (snd (add_password example_prims example_entry example_world))))
       = [1, 2]"
  by (simp add: add_password_def get_crypto_def is_unlocked_def encrypt_def encrypt_bytes_def
      AESGCM_def example_key_length store_password_def create_snapshot_def
      insert_password_def next_rowid_def example_world_def example_entry_def example_row_def
      split_beta Let_def)
    (simp add: example_key_def)

section \<open>Tampering and the wrong key\<close>

lemma flip_bit_byte_neq: "m < 8 \<Longrightarrow> flip_bit m (a :: byte) \<noteq> a"
proof
  assume m: "m < 8" and eq: "flip_bit m a = a"
  have "bit (flip_bit m a) m \<longleftrightarrow> \<not> bit a m"
    using m by (simp add: bit_flip_bit_iff)
  with eq show False by simp
qed

lemma flip_bit_at_length: "length (flip_bit_at i bs) = length bs"
  by (simp add: flip_bit_at_def)

lemma flip_bit_at_neq: "i < 8 * length bs \<Longrightarrow> flip_bit_at i bs \<noteq> bs"
proof -
  assume i: "i < 8 * length bs"
  then have j: "i div 8 < length bs" by auto
  have "flip_bit (i mod 8) (bs ! (i div 8)) \<noteq> bs ! (i div 8)"
    by (rule flip_bit_byte_neq) simp
  with j show ?thesis
    by (simp add: flip_bit_at_def list_update_same_conv)
qed

lemma opened_sealed: "opened k n (sealed k n p) = Inr p"
  by (simp add: opened_def sealed_def Let_def)

lemma doubled_update:
  assumes "t < 2 * length p" and "x \<noteq> (p @ p) ! t"
  shows "(p @ p)[t := x] \<noteq> take (length p) ((p @ p)[t := x]) @ take (length p) ((p @ p)[t := x])"
proof (cases "t < length p")
  case True
  then have "x \<noteq> p ! t"
    using assms(2) by (simp add: nth_append)
  with True have "p[t := x] \<noteq> p"
    by (simp add: list_update_same_conv)
  with True show ?thesis
    by (auto simp: list_update_append)
next
  case False
  then have "x \<noteq> p ! (t - length p)"
    using assms(2) by (simp add: nth_append)
  moreover from False assms(1) have "t - length p < length p"
    by simp
  ultimately have "p[t - length p := x] \<noteq> p"
    by (simp add: list_update_same_conv)
  with False show ?thesis
    by (simp add: list_update_append)
qed

lemma opened_update:
  assumes "j < length (sealed k n p)" and "x \<noteq> sealed k n p ! j"
  shows "opened k n ((sealed k n p)[j := x]) = Inl InvalidTag"
proof (cases "j < length k + length n")
  case True
  have "take (length k + length n) ((sealed k n p)[j := x]) = (k @ n)[j := x]"
    using True by (simp add: sealed_def take_update_swap)
  moreover have "x \<noteq> (k @ n) ! j"
    using True assms(2) by (auto simp: sealed_def nth_append split: if_splits)
  ultimately have "take (length k + length n) ((sealed k n p)[j := x]) \<noteq> k @ n"
    using True by (simp add: list_update_same_conv)
  then show ?thesis
    by (simp add: opened_def Let_def)
next
  case False
  let ?t = "j - (length k + length n)"
  have body: "drop (length k + length n) ((sealed k n p)[j := x]) = (p @ p)[?t := x]"
    using False by (simp add: sealed_def drop_update_swap)
  have t: "?t < 2 * length p"
    using False assms(1) by (simp add: sealed_def)
  have "sealed k n p ! j = (p @ p) ! ?t"
    using False nth_append [of "k @ n" "p @ p" j] by (simp add: sealed_def)
  with assms(2) have x: "x \<noteq> (p @ p) ! ?t"
    by simp
  from doubled_update [OF t x] show ?thesis
    by (simp add: opened_def Let_def body)
qed

lemma authentic_round_trip: "aead_round_trip authentic_prims"
  by (simp add: aead_round_trip_def authentic_prims_def opened_sealed)

lemma authentic_tamper_evident: "aead_tamper_evident authentic_prims"
proof -
  have nonce: "isl (opened k (flip_bit_at i n) (sealed k n p))" if "i < 8 * length n" for k n p i
  proof -
    from that have "flip_bit_at i n \<noteq> n"
      by (rule flip_bit_at_neq)
    then show ?thesis
      by (simp add: opened_def sealed_def Let_def flip_bit_at_length)
  qed
  have data: "isl (opened k n (flip_bit_at i (sealed k n p)))"
    if "i < 8 * length (sealed k n p)" for k n p i
  proof -
    from that have j: "i div 8 < length (sealed k n p)"
      by auto
    have "flip_bit (i mod 8) (sealed k n p ! (i div 8)) \<noteq> sealed k n p ! (i div 8)"
      by (rule flip_bit_byte_neq) simp
    from opened_update [OF j this] show ?thesis
      by (simp add: flip_bit_at_def)
  qed
  from nonce data show ?thesis
    by (simp add: aead_tamper_evident_def authentic_prims_def)
qed

lemma authentic_key_bound: "aead_key_bound authentic_prims"
  by (auto simp: aead_key_bound_def authentic_prims_def opened_def sealed_def Let_def)

text \<open>
  Claim C5 (tamper detection, fail-closed decryption). For every manager holding a
  32-byte key and every payload, take the nonce and the ciphertext with its tag that
  \<^verbatim>\<open>encrypt_bytes\<close> returned. With any one bit of the nonce flipped, or any one bit
  of the ciphertext flipped, \<^verbatim>\<open>decrypt_bytes\<close> and \<^verbatim>\<open>decrypt\<close> under the same key
  end in an exception and return no plaintext. So do they for the untouched pair under
  any other 32-byte key that \<^verbatim>\<open>derive_key\<close> returned for another password and salt.
  Used of the library: AES-GCM rejects what differs in one bit from what it produced,
  and what it produced under another key.
\<close>

theorem decrypt_rejects_tampering_and_wrong_key:
  assumes "aead_tamper_evident P" and "aead_key_bound P"
    and "master_key self = Some K" and "length K = 32"
    and "encrypt_bytes P self plaintext r = (Inr enc, r')"
  shows "(\<forall>i. i < 8 * length (nonce enc) \<longrightarrow>
            (\<exists>e. decrypt_bytes P self (flip_bit_at i (nonce enc)) (ciphertext enc) = Inl e
               \<and> decrypt P self (flip_bit_at i (nonce enc)) (ciphertext enc) = Inl e))
       \<and> (\<forall>i. i < 8 * length (ciphertext enc) \<longrightarrow>
            (\<exists>e. decrypt_bytes P self (nonce enc) (flip_bit_at i (ciphertext enc)) = Inl e
               \<and> decrypt P self (nonce enc) (flip_bit_at i (ciphertext enc)) = Inl e))
       \<and> (\<forall>password salt password' salt' K' other.
             derive_key P password salt = Inr K \<and> derive_key P password' salt' = Inr K'
           \<and> K' \<noteq> K \<and> length K' = 32 \<and> master_key other = Some K' \<longrightarrow>
            (\<exists>e. decrypt_bytes P other (nonce enc) (ciphertext enc) = Inl e
               \<and> decrypt P other (nonce enc) (ciphertext enc) = Inl e))"
proof -
  from assms(3,4,5) have n: "length (nonce enc) = 12"
    and c: "ciphertext enc = aesgcm_encrypt P K (nonce enc) plaintext"
    by (auto simp: encrypt_bytes_def AESGCM_def urandom_def split: if_splits)
  have fails: "\<exists>e. decrypt_bytes P m n' c' = Inl e \<and> decrypt P m n' c' = Inl e"
    if "master_key m = Some k" and "length k = 32" and "isl (aesgcm_decrypt P k n' c')"
    for m k n' c'
    using that by (auto simp: decrypt_def decrypt_bytes_def AESGCM_def isl_def)
  show ?thesis
  proof (intro conjI allI impI)
    fix i assume "i < 8 * length (nonce enc)"
    with assms(1,4) n have "isl (aesgcm_decrypt P K (flip_bit_at i (nonce enc)) (ciphertext enc))"
      unfolding aead_tamper_evident_def c by blast
    from fails [OF assms(3,4) this]
    show "\<exists>e. decrypt_bytes P self (flip_bit_at i (nonce enc)) (ciphertext enc) = Inl e
               \<and> decrypt P self (flip_bit_at i (nonce enc)) (ciphertext enc) = Inl e" .
  next
    fix i assume "i < 8 * length (ciphertext enc)"
    with assms(1,4) n have "isl (aesgcm_decrypt P K (nonce enc) (flip_bit_at i (ciphertext enc)))"
      unfolding aead_tamper_evident_def c by blast
    from fails [OF assms(3,4) this]
    show "\<exists>e. decrypt_bytes P self (nonce enc) (flip_bit_at i (ciphertext enc)) = Inl e
               \<and> decrypt P self (nonce enc) (flip_bit_at i (ciphertext enc)) = Inl e" .
  next
    fix password salt password' salt' K' and other :: CryptoManager
    assume a: "derive_key P password salt = Inr K \<and> derive_key P password' salt' = Inr K'
           \<and> K' \<noteq> K \<and> length K' = 32 \<and> master_key other = Some K'"
    with assms(2,4) n have "isl (aesgcm_decrypt P K' (nonce enc) (ciphertext enc))"
      unfolding aead_key_bound_def c by blast
    from fails [OF _ _ this] a
    show "\<exists>e. decrypt_bytes P other (nonce enc) (ciphertext enc) = Inl e
               \<and> decrypt P other (nonce enc) (ciphertext enc) = Inl e"
      by blast
  qed
qed

lemma authentic_derive_key:
  "derive_key authentic_prims password salt = derive_key example_prims password salt"
  by (simp add: derive_key_def authentic_prims_def)

theorem decrypt_rejects_tampering_and_wrong_key_witness:
  "aead_tamper_evident authentic_prims \<and> aead_key_bound authentic_prims
   \<and> aead_round_trip authentic_prims
   \<and> master_key \<lparr>master_key = Some example_key\<rparr> = Some example_key
   \<and> length example_key = 32
   \<and> derive_key authentic_prims ''Secret1'' example_salt = Inr example_key
   \<and> derive_key authentic_prims ''Secret2'' example_salt = Inr example_new_key
   \<and> example_new_key \<noteq> example_key \<and> length example_new_key = 32
   \<and> (\<exists>enc r'.
         encrypt_bytes authentic_prims \<lparr>master_key = Some example_key\<rparr> [10, 20, 30]
           (\<lambda>i. of_nat i) = (Inr enc, r')
       \<and> decrypt_bytes authentic_prims \<lparr>master_key = Some example_key\<rparr>
           (nonce enc) (ciphertext enc) = Inr [10, 20, 30]
       \<and> (\<exists>e. decrypt_bytes authentic_prims \<lparr>master_key = Some example_key\<rparr>
                 (flip_bit_at 0 (nonce enc)) (ciphertext enc) = Inl e)
       \<and> (\<exists>e. decrypt_bytes authentic_prims \<lparr>master_key = Some example_key\<rparr>
                 (nonce enc) (flip_bit_at 5 (ciphertext enc)) = Inl e)
       \<and> (\<exists>e. decrypt_bytes authentic_prims \<lparr>master_key = Some example_new_key\<rparr>
                 (nonce enc) (ciphertext enc) = Inl e))"
proof -
  let ?self = "\<lparr>master_key = Some example_key\<rparr>"
  let ?other = "\<lparr>master_key = Some example_new_key\<rparr>"
  let ?n = "fst (urandom 12 (\<lambda>i. of_nat i :: byte))"
  define enc where "enc = \<lparr>nonce = ?n, ciphertext = sealed example_key ?n [10, 20, 30]\<rparr>"
  have k: "master_key ?self = Some example_key"
    by simp
  have k': "master_key ?other = Some example_new_key"
    by simp
  have len': "length example_new_key = 32"
    by (simp add: example_new_key_def)
  have ne: "example_new_key \<noteq> example_key"
    by (simp add: example_new_key_def example_key_def)
  have d: "derive_key authentic_prims ''Secret1'' example_salt = Inr example_key"
    by (simp add: authentic_derive_key example_derive_key)
  have d': "derive_key authentic_prims ''Secret2'' example_salt = Inr example_new_key"
    by (simp add: authentic_derive_key example_derive_new_key)
  have nonempty: "example_key \<noteq> []"
    using example_key_length by auto
  have e: "encrypt_bytes authentic_prims ?self [10, 20, 30] (\<lambda>i. of_nat i) =
      (Inr enc, snd (urandom 12 (\<lambda>i. of_nat i)))"
    by (simp add: encrypt_bytes_def AESGCM_def example_key_length nonempty authentic_prims_def
        enc_def split_beta)
  have ln: "length (nonce enc) = 12"
    by (simp add: enc_def length_urandom)
  have plain: "decrypt_bytes authentic_prims ?self (nonce enc) (ciphertext enc) = Inr [10, 20, 30]"
    by (simp add: decrypt_bytes_def AESGCM_def example_key_length nonempty authentic_prims_def
        enc_def opened_sealed)
  note inst = decrypt_rejects_tampering_and_wrong_key [OF authentic_tamper_evident authentic_key_bound k example_key_length e]
  have "0 < 8 * length (nonce enc)"
    by (simp add: ln)
  with inst
  have 1: "\<exists>e. decrypt_bytes authentic_prims ?self (flip_bit_at 0 (nonce enc)) (ciphertext enc)
      = Inl e"
    by blast
  have "5 < 8 * length (ciphertext enc)"
    by (simp add: enc_def sealed_def example_key_length)
  with inst
  have 2: "\<exists>e. decrypt_bytes authentic_prims ?self (nonce enc) (flip_bit_at 5 (ciphertext enc))
      = Inl e"
    by blast
  from inst d d' ne len' k'
  have 3: "\<exists>e. decrypt_bytes authentic_prims ?other (nonce enc) (ciphertext enc) = Inl e"
    by blast
  from authentic_tamper_evident authentic_key_bound authentic_round_trip k
    example_key_length d d' ne len' e plain 1 2 3
  show ?thesis by blast
qed

end
